theory Spec2Isabelle
  imports Complex_Main "HOL-Library.Multiset" "HOL-Library.Char_ord"
    "HOL-Library.List_Lexorder" "HOL-Library.Product_Lexorder"
begin

section \<open>Smart attendance: data model\<close>

text \<open>
  The repository keeps two SQLite tables (\<^verbatim>\<open>init_db\<close>, the same statements in all five
  source files):
  \<^verbatim>\<open>students(student_id TEXT PRIMARY KEY, name TEXT NOT NULL, image_path TEXT NOT NULL)\<close>
  and
  \<^verbatim>\<open>attendance(id INTEGER PRIMARY KEY AUTOINCREMENT, student_id, date, time)\<close>.
  A table is the list of its rows in rowid order, which is the order an unordered
  \<^verbatim>\<open>SELECT\<close> scans them in. Field names carry the aliases \<^verbatim>\<open>s\<close> and \<^verbatim>\<open>a\<close> the
  queries of the repository use. Every entry point runs \<^verbatim>\<open>init_db\<close> before its first
  query (\<^verbatim>\<open>CREATE TABLE IF NOT EXISTS\<close> keeps the rows of a table that exists), so the
  model starts from a database that has both tables.
\<close>

type_synonym path = string

record student_row =
  s_student_id :: string
  s_name :: string
  s_image_path :: path

record attendance_row =
  a_id :: nat
  a_student_id :: string
  a_date :: string
  a_time :: string

text \<open>
  \<open>attendance_seq\<close> is the entry of \<^verbatim>\<open>sqlite_sequence\<close> for the attendance table: the
  largest id \<^verbatim>\<open>AUTOINCREMENT\<close> has handed out so far.
\<close>

record database =
  students :: "student_row list"
  attendance :: "attendance_row list"
  attendance_seq :: nat

text \<open>
  The files the programs read and write: image files by path (their bytes), and the
  attendance CSV as the list of rows \<^verbatim>\<open>csv.writer\<close> has written (\<open>None\<close> while the
  file does not exist).
\<close>

record world =
  db :: database
  files :: "path \<rightharpoonup> string"
  attendance_csv :: "string list list option"

text \<open>
  Exceptions are values. \<open>ImageError\<close> stands for whatever
  \<^verbatim>\<open>face_recognition.load_image_file\<close> raises on a file it cannot decode,
  \<open>SameFileError\<close> for \<^verbatim>\<open>shutil.copy2\<close> on identical source and destination.
\<close>

datatype error =
  FileNotFoundError | RuntimeError | ImageError | SameFileError | ValueError | IndexError

text \<open>
  The libraries are opaque to the repository; they are a parameter of the model:
  decoding the bytes of an image file (which may fail), the faces located in an image,
  the encodings of an image, the distance between two encodings, and the string and
  path helpers \<^verbatim>\<open>str.strip()\<close>, \<^verbatim>\<open>Path(p).suffix\<close> and \<^verbatim>\<open>os.path.join\<close>.
  A distance is a real number: the value of the finite floating-point number the
  library returns, which the program only compares (with other distances and with the
  tolerance 0.5, itself a floating-point number).
  Two more answers come from outside the repository. \<open>preview_error\<close> is the exception,
  if any, that \<^verbatim>\<open>Image.open\<close> and \<^verbatim>\<open>st.image\<close> raise on uploaded bytes when the web
  page shows its preview. \<open>copy_error\<close> is the exception, if any, with which
  \<^verbatim>\<open>shutil.copy2\<close> refuses a source and a destination in a given world: they name
  the same file, the directory of the destination is missing, the operating system
  says no. Nothing is assumed of either.
\<close>

record ('img, 'enc) face_lib =
  decode_image :: "string \<Rightarrow> error + 'img"
  face_locations :: "'img \<Rightarrow> nat list"
  face_encodings :: "'img \<Rightarrow> 'enc list"
  encoding_distance :: "'enc \<Rightarrow> 'enc \<Rightarrow> real"
  str_strip :: "string \<Rightarrow> string"
  path_suffix :: "path \<Rightarrow> string"
  path_join :: "string \<Rightarrow> string \<Rightarrow> path"
  preview_error :: "string \<Rightarrow> error option"
  copy_error :: "world \<Rightarrow> path \<Rightarrow> path \<Rightarrow> error option"

definition path_exists :: "world \<Rightarrow> path \<Rightarrow> bool" where
  "path_exists w p = (files w p \<noteq> None)"

definition load_image_file :: "('img, 'enc) face_lib \<Rightarrow> world \<Rightarrow> path \<Rightarrow> error + 'img" where
  "load_image_file lib w p =
     (case files w p of None \<Rightarrow> Inl FileNotFoundError | Some bytes \<Rightarrow> decode_image lib bytes)"

section \<open>The matcher\<close>

definition FACE_RECOGNITION_TOLERANCE :: real where
  "FACE_RECOGNITION_TOLERANCE = 0.5"

text \<open>
  \<^verbatim>\<open>face_recognition.face_distance(known, face)\<close>: one distance per gallery entry, in
  gallery order.
\<close>

definition face_distance :: "('img, 'enc) face_lib \<Rightarrow> 'enc list \<Rightarrow> 'enc \<Rightarrow> real list" where
  "face_distance lib known face = map (\<lambda>k. encoding_distance lib k face) known"

text \<open>
  \<^verbatim>\<open>np.argmin\<close> as a left-to-right scan that keeps the index of the smallest value seen
  so far and replaces it only by a strictly smaller one; on an empty array it raises
  \<^verbatim>\<open>ValueError\<close>.
\<close>

fun argmin_scan :: "real list \<Rightarrow> nat \<Rightarrow> nat \<Rightarrow> real \<Rightarrow> nat" where
  "argmin_scan [] i best v = best"
| "argmin_scan (d # ds) i best v =
     (if d < v then argmin_scan ds (Suc i) i d else argmin_scan ds (Suc i) best v)"

definition argmin :: "real list \<Rightarrow> error + nat" where
  "argmin ds = (case ds of [] \<Rightarrow> Inl ValueError | d # rest \<Rightarrow> Inr (argmin_scan rest 1 0 d))"

text \<open>Python list indexing with a non-negative index.\<close>

definition py_index :: "'a list \<Rightarrow> nat \<Rightarrow> error + 'a" where
  "py_index xs i = (if i < length xs then Inr (xs ! i) else Inl IndexError)"

record 'enc gallery =
  known_face_encodings :: "'enc list"
  known_face_ids :: "string list"
  known_face_names :: "string list"

text \<open>
  The statements every front-end runs for one detected face once the gallery is known to
  be non-empty (\<^verbatim>\<open>mark_attendance.py\<close> lines 178-184, \<^verbatim>\<open>app.py\<close> 348-354,
  \<^verbatim>\<open>attendance_gui.py\<close> 406-412, the same text in each): the result is the matched
  \<open>(student_id, name)\<close>, or \<open>None\<close> when the best distance exceeds the tolerance.
\<close>

definition match_face ::
  "('img, 'enc) face_lib \<Rightarrow> 'enc gallery \<Rightarrow> 'enc \<Rightarrow> error + (string \<times> string) option" where
  "match_face lib g face_encoding =
     (let distances = face_distance lib (known_face_encodings g) face_encoding in
      case argmin distances of
        Inl e \<Rightarrow> Inl e
      | Inr best_match_index \<Rightarrow>
          (case py_index distances best_match_index of
             Inl e \<Rightarrow> Inl e
           | Inr best_distance \<Rightarrow>
               if best_distance \<le> FACE_RECOGNITION_TOLERANCE then
                 (case py_index (known_face_ids g) best_match_index of
                    Inl e \<Rightarrow> Inl e
                  | Inr student_id \<Rightarrow>
                      (case py_index (known_face_names g) best_match_index of
                         Inl e \<Rightarrow> Inl e
                       | Inr name \<Rightarrow> Inr (Some (student_id, name))))
               else Inr None))"


section \<open>Database statements\<close>

text \<open>
  \<^verbatim>\<open>INSERT INTO attendance (student_id, date, time) VALUES (?, ?, ?)\<close>: the new row gets
  the id one above the largest id in the table and in \<^verbatim>\<open>sqlite_sequence\<close>. The foreign
  key on \<^verbatim>\<open>student_id\<close> is declared but no connection of the repository turns
  \<^verbatim>\<open>PRAGMA foreign_keys\<close> on, so it is not enforced.
\<close>

definition insert_attendance :: "string \<Rightarrow> string \<Rightarrow> string \<Rightarrow> database \<Rightarrow> database" where
  "insert_attendance student_id date_str time_str d =
     (let new_id = Suc (fold max (map a_id (attendance d)) (attendance_seq d)) in
      d\<lparr>attendance := attendance d @
           [\<lparr>a_id = new_id, a_student_id = student_id, a_date = date_str, a_time = time_str\<rparr>],
        attendance_seq := new_id\<rparr>)"

text \<open>
  \<^verbatim>\<open>INSERT INTO students ... ON CONFLICT(student_id) DO UPDATE SET name = excluded.name,
  image_path = excluded.image_path\<close>: the row with this primary key is updated where it
  stands, or a new row is added at the end.
\<close>

fun upsert_row :: "student_row \<Rightarrow> student_row list \<Rightarrow> student_row list" where
  "upsert_row r [] = [r]"
| "upsert_row r (x # xs) =
     (if s_student_id x = s_student_id r
      then x\<lparr>s_name := s_name r, s_image_path := s_image_path r\<rparr> # xs
      else x # upsert_row r xs)"

definition upsert_student :: "string \<Rightarrow> string \<Rightarrow> path \<Rightarrow> database \<Rightarrow> database" where
  "upsert_student student_id name image_path d =
     d\<lparr>students := upsert_row
          \<lparr>s_student_id = student_id, s_name = name, s_image_path = image_path\<rparr> (students d)\<rparr>"

text \<open>
  \<^verbatim>\<open>SELECT DISTINCT student_id FROM attendance WHERE date = ?\<close> with the parameter
  \<^verbatim>\<open>date.today().strftime("%Y-%m-%d")\<close>, then \<^verbatim>\<open>{r[0] for r in rows}\<close>. The three
  front-ends have the same statements (\<^verbatim>\<open>mark_attendance.py\<close> 96-105, \<^verbatim>\<open>app.py\<close> 283-290,
  \<^verbatim>\<open>attendance_gui.py\<close> 315-323). \<open>today_str\<close> is the formatted current date.
\<close>

definition load_marked_students_today :: "string \<Rightarrow> database \<Rightarrow> string set" where
  "load_marked_students_today today_str d =
     set (remdups (map a_student_id (filter (\<lambda>r. a_date r = today_str) (attendance d))))"

text \<open>The GUI's method of the same name, and the web page's function.\<close>

definition gui_load_marked_students_today :: "string \<Rightarrow> database \<Rightarrow> string set" where
  "gui_load_marked_students_today today_str d =
     set (remdups (map a_student_id (filter (\<lambda>r. a_date r = today_str) (attendance d))))"

definition get_marked_students_today :: "string \<Rightarrow> database \<Rightarrow> string set" where
  "get_marked_students_today today_str d =
     set (remdups (map a_student_id (filter (\<lambda>r. a_date r = today_str) (attendance d))))"

section \<open>Loading the gallery\<close>

definition empty_gallery :: "'enc gallery" where
  "empty_gallery = \<lparr>known_face_encodings = [], known_face_ids = [], known_face_names = []\<rparr>"

text \<open>
  The loop over the rows of the students table (\<^verbatim>\<open>mark_attendance.py\<close> 76-90,
  \<^verbatim>\<open>attendance_gui.py\<close> 301-311, \<^verbatim>\<open>app.py\<close> 268-278): a row whose image file is missing
  or shows no face is skipped; \<^verbatim>\<open>load_image_file\<close> stands in no \<^verbatim>\<open>try\<close>, so what it
  raises ends the loop.
\<close>

fun load_faces_loop ::
  "('img, 'enc) face_lib \<Rightarrow> world \<Rightarrow> student_row list \<Rightarrow> 'enc gallery \<Rightarrow> error + 'enc gallery" where
  "load_faces_loop lib w [] g = Inr g"
| "load_faces_loop lib w (row # rows) g =
     (if \<not> path_exists w (s_image_path row) then load_faces_loop lib w rows g
      else case load_image_file lib w (s_image_path row) of
        Inl e \<Rightarrow> Inl e
      | Inr img \<Rightarrow>
          (case face_encodings lib img of
             [] \<Rightarrow> load_faces_loop lib w rows g
           | first_encoding # _ \<Rightarrow>
               load_faces_loop lib w rows
                 (g\<lparr>known_face_encodings := known_face_encodings g @ [first_encoding],
                    known_face_ids := known_face_ids g @ [s_student_id row],
                    known_face_names := known_face_names g @ [s_name row]\<rparr>)))"

definition load_registered_faces :: "('img, 'enc) face_lib \<Rightarrow> world \<Rightarrow> error + 'enc gallery" where
  "load_registered_faces lib w =
     (let rows = students (db w) in
      if rows = [] then Inr empty_gallery
      else load_faces_loop lib w rows empty_gallery)"

text \<open>The GUI's method also answers whether the gallery is non-empty.\<close>

definition gui_load_registered_faces ::
  "('img, 'enc) face_lib \<Rightarrow> world \<Rightarrow> error + (bool \<times> 'enc gallery)" where
  "gui_load_registered_faces lib w =
     (let rows = students (db w) in
      if rows = [] then Inr (False, empty_gallery)
      else case load_faces_loop lib w rows empty_gallery of
        Inl e \<Rightarrow> Inl e
      | Inr g \<Rightarrow> Inr (0 < length (known_face_encodings g), g))"

text \<open>
  The web page reads the students through \<^verbatim>\<open>load_registered_students\<close>, which
  \<^verbatim>\<open>@st.cache_data\<close> memoises: once it has run, later runs of the page get the rows
  of that first run (\<open>cached\<close>), whatever the table holds by then.
  \<^verbatim>\<open>load_face_encodings\<close> loops over the rows the page got.
\<close>

definition load_registered_students :: "student_row list option \<Rightarrow> world \<Rightarrow> student_row list" where
  "load_registered_students cached w =
     (case cached of None \<Rightarrow> students (db w) | Some rows \<Rightarrow> rows)"

definition load_face_encodings ::
  "('img, 'enc) face_lib \<Rightarrow> world \<Rightarrow> student_row list \<Rightarrow> error + 'enc gallery" where
  "load_face_encodings lib w students_rows = load_faces_loop lib w students_rows empty_gallery"

section \<open>Marking attendance\<close>

text \<open>
  A timestamp is what \<^verbatim>\<open>datetime.now()\<close> gives at the moment of marking, formatted:
  \<open>(date_str, time_str)\<close>.
\<close>

type_synonym timestamp = "string \<times> string"

definition append_to_csv :: "string \<Rightarrow> string \<Rightarrow> string \<Rightarrow> string \<Rightarrow> world \<Rightarrow> world" where
  "append_to_csv name student_id date_str time_str w =
     (let file_exists = (attendance_csv w \<noteq> None);
          old_rows = (case attendance_csv w of None \<Rightarrow> [] | Some rows \<Rightarrow> rows);
          with_header = (if \<not> file_exists
                         then old_rows @ [[''Name'', ''Student ID'', ''Date'', ''Time'']]
                         else old_rows)
      in w\<lparr>attendance_csv := Some (with_header @ [[name, student_id, date_str, time_str]])\<rparr>)"

definition mark_attendance :: "timestamp \<Rightarrow> string \<Rightarrow> string \<Rightarrow> world \<Rightarrow> world" where
  "mark_attendance now student_id name w =
     (let date_str = fst now; time_str = snd now in
      append_to_csv name student_id date_str time_str
        (w\<lparr>db := insert_attendance student_id date_str time_str (db w)\<rparr>))"

text \<open>The GUI writes the row and a status line, the web page the row only.\<close>

definition gui_mark_attendance :: "timestamp \<Rightarrow> string \<Rightarrow> string \<Rightarrow> world \<Rightarrow> world" where
  "gui_mark_attendance now student_id name w =
     (let date_str = fst now; time_str = snd now in
      w\<lparr>db := insert_attendance student_id date_str time_str (db w)\<rparr>)"

definition web_mark_attendance :: "timestamp \<Rightarrow> string \<Rightarrow> world \<Rightarrow> world" where
  "web_mark_attendance now student_id w =
     (let date_str = fst now; time_str = snd now in
      w\<lparr>db := insert_attendance student_id date_str time_str (db w)\<rparr>)"

section \<open>The camera loop\<close>

record loop_state =
  the_world :: world
  students_marked_today :: "string set"
  face_labels :: "string list"

text \<open>
  One detected face in \<^verbatim>\<open>run_attendance\<close> (lines 173-192). Each face comes with the
  timestamp the clock would give if it is marked.
\<close>

definition process_face ::
  "('img, 'enc) face_lib \<Rightarrow> 'enc gallery \<Rightarrow> 'enc \<times> timestamp \<Rightarrow> loop_state \<Rightarrow> error + loop_state" where
  "process_face lib g face st =
     (if known_face_encodings g = [] then
        Inr (st\<lparr>face_labels := face_labels st @ [''Unknown'']\<rparr>)
      else case match_face lib g (fst face) of
        Inl e \<Rightarrow> Inl e
      | Inr None \<Rightarrow> Inr (st\<lparr>face_labels := face_labels st @ [''Unknown'']\<rparr>)
      | Inr (Some (student_id, name)) \<Rightarrow>
          (let st1 = st\<lparr>face_labels := face_labels st @ [name]\<rparr> in
           if student_id \<notin> students_marked_today st1 then
             Inr (st1\<lparr>the_world := mark_attendance (snd face) student_id name (the_world st1),
                      students_marked_today := insert student_id (students_marked_today st1)\<rparr>)
           else Inr st1))"

fun process_faces ::
  "('img, 'enc) face_lib \<Rightarrow> 'enc gallery \<Rightarrow> ('enc \<times> timestamp) list \<Rightarrow> loop_state \<Rightarrow> error + loop_state" where
  "process_faces lib g [] st = Inr st"
| "process_faces lib g (face # faces) st =
     (case process_face lib g face st of
        Inl e \<Rightarrow> Inl e
      | Inr st' \<Rightarrow> process_faces lib g faces st')"

text \<open>
  What the camera and the keyboard deliver in one iteration of \<^verbatim>\<open>while True\<close>: a failed
  read, or a frame with its detected faces and whether \<^verbatim>\<open>q\<close> was pressed after it. The
  loop runs over the iterations observed so far; when they are used up the state reached
  is returned.
\<close>

datatype 'enc camera_event = ReadFailed | Frame "('enc \<times> timestamp) list" bool

fun camera_loop ::
  "('img, 'enc) face_lib \<Rightarrow> 'enc gallery \<Rightarrow> 'enc camera_event list \<Rightarrow> loop_state \<Rightarrow> error + loop_state" where
  "camera_loop lib g [] st = Inr st"
| "camera_loop lib g (ReadFailed # events) st = Inr st"
| "camera_loop lib g (Frame faces quit # events) st =
     (case process_faces lib g faces (st\<lparr>face_labels := []\<rparr>) of
        Inl e \<Rightarrow> Inl e
      | Inr st' \<Rightarrow> if quit then Inr st' else camera_loop lib g events st')"

definition run_attendance ::
  "('img, 'enc) face_lib \<Rightarrow> string \<Rightarrow> bool \<Rightarrow> 'enc camera_event list \<Rightarrow> world \<Rightarrow> error + world" where
  "run_attendance lib today_str camera_opened events w =
     (case load_registered_faces lib w of
        Inl e \<Rightarrow> Inl e
      | Inr g \<Rightarrow>
          if known_face_encodings g = [] then Inr w
          else
            (let marked = load_marked_students_today today_str (db w) in
             if \<not> camera_opened then Inr w
             else case camera_loop lib g events
                         \<lparr>the_world = w, students_marked_today = marked, face_labels = []\<rparr> of
               Inl e \<Rightarrow> Inl e
             | Inr st \<Rightarrow> Inr (the_world st)))"

text \<open>
  One detected face in the GUI's \<^verbatim>\<open>process_camera\<close> (lines 402-419) and in the web
  page's loop (lines 344-374): the label, and the state after it.
\<close>

definition gui_process_face ::
  "('img, 'enc) face_lib \<Rightarrow> 'enc gallery \<Rightarrow> 'enc \<times> timestamp \<Rightarrow> world \<times> string set \<Rightarrow>
   error + (string \<times> world \<times> string set)" where
  "gui_process_face lib g face st =
     (if known_face_encodings g \<noteq> [] then
        (case match_face lib g (fst face) of
           Inl e \<Rightarrow> Inl e
         | Inr None \<Rightarrow> Inr (''Unknown'', st)
         | Inr (Some (student_id, name)) \<Rightarrow>
             if student_id \<notin> snd st
             then Inr (name, gui_mark_attendance (snd face) student_id name (fst st),
                       insert student_id (snd st))
             else Inr (name, st))
      else Inr (''Unknown'', st))"

definition web_process_face ::
  "('img, 'enc) face_lib \<Rightarrow> 'enc gallery \<Rightarrow> 'enc \<times> timestamp \<Rightarrow> world \<times> string set \<Rightarrow>
   error + (string \<times> world \<times> string set)" where
  "web_process_face lib g face st =
     (if known_face_encodings g \<noteq> [] then
        (case match_face lib g (fst face) of
           Inl e \<Rightarrow> Inl e
         | Inr None \<Rightarrow> Inr (''Unknown'', st)
         | Inr (Some (student_id, name)) \<Rightarrow>
             if student_id \<notin> snd st
             then Inr (name, web_mark_attendance (snd face) student_id (fst st),
                       insert student_id (snd st))
             else Inr (name, st))
      else Inr (''Unknown'', st))"

text \<open>
  The GUI's loop: \<^verbatim>\<open>process_camera\<close> handles one frame and schedules itself again
  (\<^verbatim>\<open>root.after\<close>) until a read fails or the stop button has cleared
  \<^verbatim>\<open>camera_running\<close>; the flag of a frame says whether the button was pressed after it.
  The state is the world and \<^verbatim>\<open>self.students_marked_today\<close>.
\<close>

fun gui_process_faces ::
  "('img, 'enc) face_lib \<Rightarrow> 'enc gallery \<Rightarrow> ('enc \<times> timestamp) list \<Rightarrow> world \<times> string set \<Rightarrow>
   error + (world \<times> string set)" where
  "gui_process_faces lib g [] st = Inr st"
| "gui_process_faces lib g (face # faces) st =
     (case gui_process_face lib g face st of
        Inl e \<Rightarrow> Inl e
      | Inr (label, st') \<Rightarrow> gui_process_faces lib g faces st')"

fun process_camera ::
  "('img, 'enc) face_lib \<Rightarrow> 'enc gallery \<Rightarrow> 'enc camera_event list \<Rightarrow> world \<times> string set \<Rightarrow>
   error + (world \<times> string set)" where
  "process_camera lib g [] st = Inr st"
| "process_camera lib g (ReadFailed # events) st = Inr st"
| "process_camera lib g (Frame faces stopped # events) st =
     (case gui_process_faces lib g faces st of
        Inl e \<Rightarrow> Inl e
      | Inr st' \<Rightarrow> if stopped then Inr st' else process_camera lib g events st')"

definition start_attendance ::
  "('img, 'enc) face_lib \<Rightarrow> string \<Rightarrow> bool \<Rightarrow> 'enc camera_event list \<Rightarrow> world \<Rightarrow> error + world" where
  "start_attendance lib today_str camera_opened events w =
     (case gui_load_registered_faces lib w of
        Inl e \<Rightarrow> Inl e
      | Inr (loaded, g) \<Rightarrow>
          if \<not> loaded then Inr w
          else
            (let marked = gui_load_marked_students_today today_str (db w) in
             if \<not> camera_opened then Inr w
             else case process_camera lib g events (w, marked) of
               Inl e \<Rightarrow> Inl e
             | Inr st \<Rightarrow> Inr (fst st)))"

text \<open>
  The web page's loop (\<^verbatim>\<open>app.py\<close> 323-383) runs until a read fails or the script is
  run again (the flag of a frame); the state is the world and
  \<^verbatim>\<open>students_marked_session\<close>. \<open>mark_attendance_page\<close> is a run of the page: the
  students as \<^verbatim>\<open>load_registered_students\<close> gives them, the students marked today, and,
  with the camera box ticked, the encodings and the loop.
\<close>

fun web_process_faces ::
  "('img, 'enc) face_lib \<Rightarrow> 'enc gallery \<Rightarrow> ('enc \<times> timestamp) list \<Rightarrow> world \<times> string set \<Rightarrow>
   error + (world \<times> string set)" where
  "web_process_faces lib g [] st = Inr st"
| "web_process_faces lib g (face # faces) st =
     (case web_process_face lib g face st of
        Inl e \<Rightarrow> Inl e
      | Inr (label, st') \<Rightarrow> web_process_faces lib g faces st')"

fun web_camera_loop ::
  "('img, 'enc) face_lib \<Rightarrow> 'enc gallery \<Rightarrow> 'enc camera_event list \<Rightarrow> world \<times> string set \<Rightarrow>
   error + (world \<times> string set)" where
  "web_camera_loop lib g [] st = Inr st"
| "web_camera_loop lib g (ReadFailed # events) st = Inr st"
| "web_camera_loop lib g (Frame faces rerun # events) st =
     (case web_process_faces lib g faces st of
        Inl e \<Rightarrow> Inl e
      | Inr st' \<Rightarrow> if rerun then Inr st' else web_camera_loop lib g events st')"

definition mark_attendance_page ::
  "('img, 'enc) face_lib \<Rightarrow> student_row list option \<Rightarrow> string \<Rightarrow> bool \<Rightarrow> bool \<Rightarrow>
   'enc camera_event list \<Rightarrow> world \<Rightarrow> error + world" where
  "mark_attendance_page lib cached today_str run_camera camera_opened events w =
     (let students_rows = load_registered_students cached w in
      if students_rows = [] then Inr w
      else
        (let marked_today = get_marked_students_today today_str (db w) in
         if \<not> run_camera then Inr w
         else case load_face_encodings lib w students_rows of
           Inl e \<Rightarrow> Inl e
         | Inr g \<Rightarrow>
             if \<not> camera_opened then Inr w
             else
               (let students_marked_session = marked_today in
                case web_camera_loop lib g events (w, students_marked_session) of
                  Inl e \<Rightarrow> Inl e
                | Inr st \<Rightarrow> Inr (fst st))))"

section \<open>Registering a student\<close>

definition STUDENTS_DIR :: string where
  "STUDENTS_DIR = ''students''"

text \<open>\<^verbatim>\<open>s.strip(chars)\<close> and \<^verbatim>\<open>s.replace(" ", "_")\<close>.\<close>

definition strip_chars :: "string \<Rightarrow> string \<Rightarrow> string" where
  "strip_chars chars s =
     rev (dropWhile (\<lambda>c. c \<in> set chars) (rev (dropWhile (\<lambda>c. c \<in> set chars) s)))"

definition replace_spaces :: "string \<Rightarrow> string" where
  "replace_spaces s = map (\<lambda>c. if c = CHR '' '' then CHR ''_'' else c) s"

text \<open>
  The destination of the copied photo, the same expression in the three front-ends
  (\<^verbatim>\<open>register_student.py\<close> 76-81, \<^verbatim>\<open>attendance_gui.py\<close> 250-253, \<^verbatim>\<open>app.py\<close> 204-207).
\<close>

definition dest_image_path :: "('img, 'enc) face_lib \<Rightarrow> string \<Rightarrow> string \<Rightarrow> path \<Rightarrow> path" where
  "dest_image_path lib student_id name source_path =
     (let filename_safe_name = replace_spaces (str_strip lib name);
          source_ext = (if path_suffix lib source_path = [] then ''.jpg''
                        else path_suffix lib source_path);
          image_filename = student_id @ ''_'' @ filename_safe_name @ source_ext
      in path_join lib STUDENTS_DIR image_filename)"

text \<open>
  \<^verbatim>\<open>shutil.copy2\<close>: it raises what \<open>copy_error\<close> says for this source and destination,
  needs the source to exist, and otherwise leaves the bytes of the source at the
  destination.
\<close>

definition copy2 ::
  "('img, 'enc) face_lib \<Rightarrow> path \<Rightarrow> path \<Rightarrow> world \<Rightarrow> error + world" where
  "copy2 lib src dst w =
     (case copy_error lib w src dst of
        Some e \<Rightarrow> Inl e
      | None \<Rightarrow>
          (case files w src of
             None \<Rightarrow> Inl FileNotFoundError
           | Some bytes \<Rightarrow> Inr (w\<lparr>files := (files w)(dst \<mapsto> bytes)\<rparr>)))"

definition remove_file :: "path \<Rightarrow> world \<Rightarrow> world" where
  "remove_file p w = w\<lparr>files := (files w)(p := None)\<rparr>"

definition validate_and_copy_image ::
  "('img, 'enc) face_lib \<Rightarrow> path \<Rightarrow> string \<Rightarrow> string \<Rightarrow> world \<Rightarrow> error + (path \<times> world)" where
  "validate_and_copy_image lib source_path student_id name w =
     (if \<not> path_exists w source_path then Inl FileNotFoundError
      else case load_image_file lib w source_path of
        Inl e \<Rightarrow> Inl RuntimeError
      | Inr img \<Rightarrow>
          (let locations = face_locations lib img in
           if length locations = 0 then Inl RuntimeError
           else if length locations > 1 then Inl RuntimeError
           else
             (let dest_path = dest_image_path lib student_id name source_path in
              case copy2 lib source_path dest_path w of
                Inl e \<Rightarrow> Inl e
              | Inr w' \<Rightarrow> Inr (dest_path, w'))))"

text \<open>
  How a registration ends: the row was written, the input was turned down with a
  message, or an exception left the function.
\<close>

datatype outcome = Registered | Rejected | Raised error

text \<open>
  \<^verbatim>\<open>register_student\<close> of \<^verbatim>\<open>register_student.py\<close>, on the three lines read from the
  terminal. Its handler catches \<^verbatim>\<open>FileNotFoundError\<close> and \<^verbatim>\<open>RuntimeError\<close> only.
\<close>

definition register_student ::
  "('img, 'enc) face_lib \<Rightarrow> string \<Rightarrow> string \<Rightarrow> string \<Rightarrow> world \<Rightarrow> outcome \<times> world" where
  "register_student lib typed_id typed_name typed_path w =
     (let student_id = str_strip lib typed_id; name = str_strip lib typed_name in
      if student_id = [] \<or> name = [] then (Rejected, w)
      else
        (let source_image_path =
               strip_chars [CHR 0x27] (strip_chars [CHR 0x22] (str_strip lib typed_path)) in
         if source_image_path = [] then (Rejected, w)
         else case validate_and_copy_image lib source_image_path student_id name w of
           Inl e \<Rightarrow>
             if e = FileNotFoundError \<or> e = RuntimeError then (Rejected, w) else (Raised e, w)
         | Inr (dest_path, w') \<Rightarrow>
             (Registered, w'\<lparr>db := upsert_student student_id name dest_path (db w')\<rparr>)))"

text \<open>
  The GUI's \<^verbatim>\<open>register_student\<close>: the existence test comes first, and one
  \<^verbatim>\<open>except Exception\<close> covers loading, copying and the database statement.
\<close>

definition gui_register_student ::
  "('img, 'enc) face_lib \<Rightarrow> string \<Rightarrow> string \<Rightarrow> string \<Rightarrow> world \<Rightarrow> outcome \<times> world" where
  "gui_register_student lib typed_id typed_name typed_path w =
     (let student_id = str_strip lib typed_id; name = str_strip lib typed_name;
          image_path = str_strip lib typed_path in
      if student_id = [] \<or> name = [] then (Rejected, w)
      else if image_path = [] then (Rejected, w)
      else if \<not> path_exists w image_path then (Rejected, w)
      else case load_image_file lib w image_path of
        Inl e \<Rightarrow> (Rejected, w)
      | Inr img \<Rightarrow>
          (let locations = face_locations lib img in
           if length locations = 0 then (Rejected, w)
           else if length locations > 1 then (Rejected, w)
           else
             (let dest_path = dest_image_path lib student_id name image_path in
              case copy2 lib image_path dest_path w of
                Inl e \<Rightarrow> (Rejected, w)
              | Inr w' \<Rightarrow>
                  (Registered, w'\<lparr>db := upsert_student student_id name dest_path (db w')\<rparr>))))"

text \<open>
  A run of the web page's registration with the button pressed (\<^verbatim>\<open>app.py\<close> 151-234).
  The page first shows a preview of the uploaded file (lines 172-175), outside every
  \<^verbatim>\<open>try\<close>: what that raises ends the run before the button is looked at. Then, inside
  the \<^verbatim>\<open>try\<close>, the uploaded file (its name and bytes) is written to a temporary file,
  which is removed on every path.
\<close>

definition web_register_student ::
  "('img, 'enc) face_lib \<Rightarrow> string \<Rightarrow> string \<Rightarrow> (string \<times> string) option \<Rightarrow> world \<Rightarrow>
   outcome \<times> world" where
  "web_register_student lib student_id student_name uploaded_file w =
     (case (case uploaded_file of
              None \<Rightarrow> None
            | Some (uploaded_name, uploaded_bytes) \<Rightarrow> preview_error lib uploaded_bytes) of
        Some e \<Rightarrow> (Raised e, w)
      | None \<Rightarrow>
      if student_id = [] \<or> student_name = [] then (Rejected, w)
      else case uploaded_file of
        None \<Rightarrow> (Rejected, w)
      | Some (uploaded_name, uploaded_bytes) \<Rightarrow>
          (let temp_path = ''temp_'' @ uploaded_name;
               w1 = w\<lparr>files := (files w)(temp_path \<mapsto> uploaded_bytes)\<rparr> in
           case load_image_file lib w1 temp_path of
             Inl e \<Rightarrow> (Rejected, remove_file temp_path w1)
           | Inr img \<Rightarrow>
               (let locations = face_locations lib img in
                if length locations = 0 then (Rejected, remove_file temp_path w1)
                else if length locations > 1 then (Rejected, remove_file temp_path w1)
                else
                  (let dest_path = dest_image_path lib student_id student_name temp_path in
                   case copy2 lib temp_path dest_path w1 of
                     Inl e \<Rightarrow> (Rejected, remove_file temp_path w1)
                   | Inr w2 \<Rightarrow>
                       (let w3 = remove_file temp_path w2 in
                        (Registered,
                         w3\<lparr>db := upsert_student student_id student_name dest_path (db w3)\<rparr>))))))"

section \<open>Viewing the records\<close>












section \<open>A concrete library and gallery\<close>

text \<open>
  A small instance of the parameters, used to evaluate the model: an image file holds a
  string of letters, one face per letter; \<open>A\<close> encodes as 0 and any other letter as 1;
  the bytes \<open>corrupt\<close> do not decode and cannot be previewed; the distance of two
  encodings is the absolute value of their difference; a copy is refused only onto the
  path it reads.
\<close>

definition example_lib :: "(string, real) face_lib" where
  "example_lib =
     \<lparr>decode_image = (\<lambda>bytes. if bytes = ''corrupt'' then Inl ImageError else Inr bytes),
      face_locations = (\<lambda>img. [0..<length img]),
      face_encodings = (\<lambda>img. map (\<lambda>c. if c = CHR ''A'' then 0 else 1) img),
      encoding_distance = (\<lambda>a b. \<bar>a - b\<bar>),
      str_strip = strip_chars '' '',
      path_suffix = (\<lambda>p. drop (length p - 4) p),
      path_join = (\<lambda>dir file. dir @ ''/'' @ file),
      preview_error = (\<lambda>bytes. if bytes = ''corrupt'' then Some ImageError else None),
      copy_error = (\<lambda>w src dst. if src = dst then Some SameFileError else None)\<rparr>"

definition example_gallery :: "real gallery" where
  "example_gallery =
     \<lparr>known_face_encodings = [0.9, 0.3, 0.3],
      known_face_ids = [''S1'', ''S2'', ''S3''],
      known_face_names = [''Alice'', ''Bob'', ''Carol'']\<rparr>"

text \<open>
  A database with four students (the photo of Carol is missing, the photo of Dave shows
  no face) and two attendance rows, and the same world with Bob's photo damaged.
\<close>

definition example_students :: "student_row list" where
  "example_students =
     [\<lparr>s_student_id = ''S1'', s_name = ''Alice'', s_image_path = ''students/S1_Alice.jpg''\<rparr>,
      \<lparr>s_student_id = ''S2'', s_name = ''Bob'', s_image_path = ''students/S2_Bob.jpg''\<rparr>,
      \<lparr>s_student_id = ''S3'', s_name = ''Carol'', s_image_path = ''students/S3_Carol.jpg''\<rparr>,
      \<lparr>s_student_id = ''S4'', s_name = ''Dave'', s_image_path = ''students/S4_Dave.jpg''\<rparr>]"

definition example_attendance :: "attendance_row list" where
  "example_attendance =
     [\<lparr>a_id = 1, a_student_id = ''S1'', a_date = ''2024-01-01'', a_time = ''09:00:00''\<rparr>,
      \<lparr>a_id = 2, a_student_id = ''S2'', a_date = ''2024-01-02'', a_time = ''08:30:00''\<rparr>]"

definition example_world :: world where
  "example_world =
     \<lparr>db = \<lparr>students = example_students, attendance = example_attendance, attendance_seq = 2\<rparr>,
      files = [''students/S1_Alice.jpg'' \<mapsto> ''A'', ''students/S2_Bob.jpg'' \<mapsto> ''B'',
               ''students/S4_Dave.jpg'' \<mapsto> [], ''/home/photos/eve.png'' \<mapsto> ''E'',
               ''/home/photos/group.png'' \<mapsto> ''AB''],
      attendance_csv = None\<rparr>"

definition damaged_world :: world where
  "damaged_world =
     example_world\<lparr>files := (files example_world)(''students/S2_Bob.jpg'' \<mapsto> ''corrupt'')\<rparr>"

text \<open>
  A short run: two frames, the second followed by \<^verbatim>\<open>q\<close>; Alice is seen twice in the
  first frame and again in the second, Bob (already marked) once.
\<close>

definition example_events :: "real camera_event list" where
  "example_events =
     [Frame [(0, (''2024-01-02'', ''09:00:01'')), (0, (''2024-01-02'', ''09:00:01''))] False,
      Frame [(1, (''2024-01-02'', ''09:00:02'')), (0.1, (''2024-01-02'', ''09:00:02''))] True,
      Frame [(3, (''2024-01-02'', ''09:00:03''))] False]"

definition example_start :: loop_state where
  "example_start =
     \<lparr>the_world = example_world, students_marked_today = {''S2''}, face_labels = []\<rparr>"

definition loaded_gallery :: "real gallery" where
  "loaded_gallery =
     \<lparr>known_face_encodings = [0, 1], known_face_ids = [''S1'', ''S2''],
      known_face_names = [''Alice'', ''Bob'']\<rparr>"


section \<open>The gallery the specification describes\<close>

text \<open>
  The encodings the image of a row yields (none when it cannot be loaded), the rows the
  specification keeps, and the gallery built from them: the first encoding, the id and
  the name of every kept row, in table order.
\<close>

definition image_encodings :: "('img, 'enc) face_lib \<Rightarrow> world \<Rightarrow> student_row \<Rightarrow> 'enc list" where
  "image_encodings lib w row =
     (case load_image_file lib w (s_image_path row) of
        Inl e \<Rightarrow> []
      | Inr img \<Rightarrow> face_encodings lib img)"

definition yields_encoding :: "('img, 'enc) face_lib \<Rightarrow> world \<Rightarrow> student_row \<Rightarrow> bool" where
  "yields_encoding lib w row =
     (path_exists w (s_image_path row) \<and> image_encodings lib w row \<noteq> [])"

definition gallery_of_rows ::
  "('img, 'enc) face_lib \<Rightarrow> world \<Rightarrow> student_row list \<Rightarrow> 'enc gallery" where
  "gallery_of_rows lib w rows =
     \<lparr>known_face_encodings =
        map (\<lambda>row. hd (image_encodings lib w row)) (filter (yields_encoding lib w) rows),
      known_face_ids = map s_student_id (filter (yields_encoding lib w) rows),
      known_face_names = map s_name (filter (yields_encoding lib w) rows)\<rparr>"

section \<open>What a run adds\<close>

text \<open>
  The words of the specification for the duplicate guard, first match wins. A face is
  recognised as a student when the gallery is not empty and the matcher returns that
  student. The faces a run processes are those of its frames, up to the frame after
  which the run is stopped or before the read that fails.
\<close>

definition recognised ::
  "('img, 'enc) face_lib \<Rightarrow> 'enc gallery \<Rightarrow> 'enc \<Rightarrow> (string \<times> string) option" where
  "recognised lib g face_encoding =
     (if known_face_encodings g = [] then None
      else case match_face lib g face_encoding of Inl e \<Rightarrow> None | Inr r \<Rightarrow> r)"

definition recognised_ids ::
  "('img, 'enc) face_lib \<Rightarrow> 'enc gallery \<Rightarrow> ('enc \<times> timestamp) list \<Rightarrow> string set" where
  "recognised_ids lib g faces =
     set (map fst (List.map_filter (\<lambda>face. recognised lib g (fst face)) faces))"

fun processed_faces :: "'enc camera_event list \<Rightarrow> ('enc \<times> timestamp) list" where
  "processed_faces [] = []"
| "processed_faces (ReadFailed # events) = []"
| "processed_faces (Frame faces stopped # events) =
     faces @ (if stopped then [] else processed_faces events)"

text \<open>
  The rows a run must add, given the faces it processes and the set of students marked
  before: one row for each student recognised in some face and not marked before, no
  student twice, and each row with the timestamp of the first face in which its student is
  recognised.
\<close>

definition first_match_rows ::
  "('img, 'enc) face_lib \<Rightarrow> 'enc gallery \<Rightarrow> ('enc \<times> timestamp) list \<Rightarrow> string set \<Rightarrow>
   attendance_row list \<Rightarrow> bool" where
  "first_match_rows lib g faces marked news =
     (distinct (map a_student_id news) \<and>
      set (map a_student_id news) = recognised_ids lib g faces - marked \<and>
      (\<forall>r\<in>set news. \<exists>pre face post name.
          faces = pre @ face # post \<and>
          recognised lib g (fst face) = Some (a_student_id r, name) \<and>
          (a_date r, a_time r) = snd face \<and>
          (\<forall>f\<in>set pre. \<forall>n. recognised lib g (fst f) \<noteq> Some (a_student_id r, n))))"

text \<open>
  The guard as one step on the world and the marked set, for whichever way of marking a
  front-end has, and its run over a list of faces.
\<close>

definition first_match_wins ::
  "(timestamp \<Rightarrow> string \<Rightarrow> string \<Rightarrow> world \<Rightarrow> world) \<Rightarrow> (string \<times> string) option \<Rightarrow> timestamp \<Rightarrow>
   world \<times> string set \<Rightarrow> world \<times> string set" where
  "first_match_wins mark r now s =
     (case r of
        None \<Rightarrow> s
      | Some (student_id, name) \<Rightarrow>
          if student_id \<in> snd s then s
          else (mark now student_id name (fst s), insert student_id (snd s)))"

fun marks_of_run ::
  "(timestamp \<Rightarrow> string \<Rightarrow> string \<Rightarrow> world \<Rightarrow> world) \<Rightarrow> ('img, 'enc) face_lib \<Rightarrow> 'enc gallery \<Rightarrow>
   ('enc \<times> timestamp) list \<Rightarrow> world \<times> string set \<Rightarrow> world \<times> string set" where
  "marks_of_run mark lib g [] s = s"
| "marks_of_run mark lib g (face # faces) s =
     marks_of_run mark lib g faces
       (first_match_wins mark (recognised lib g (fst face)) (snd face) s)"

section \<open>Properties of the scan\<close>

lemma argmin_scan_spec:
  assumes "i = length pre" "best < i" "v = pre ! best"
    and "\<forall>j<i. v \<le> pre ! j" and "\<forall>j<best. v < pre ! j"
  shows "argmin_scan ds i best v < length (pre @ ds) \<and>
         (\<forall>j<length (pre @ ds). (pre @ ds) ! argmin_scan ds i best v \<le> (pre @ ds) ! j) \<and>
         (\<forall>j<argmin_scan ds i best v. (pre @ ds) ! argmin_scan ds i best v < (pre @ ds) ! j)"
  using assms
proof (induction ds arbitrary: pre i best v)
  case Nil
  then show ?case by simp
next
  case (Cons d ds)
  let ?pre = "pre @ [d]"
  show ?case
  proof (cases "d < v")
    case True
    have a: "\<forall>j<Suc i. d \<le> ?pre ! j"
      using Cons.prems True by (auto simp: nth_append less_Suc_eq)
    have b: "\<forall>j<i. d < ?pre ! j"
      using Cons.prems True by (auto simp: nth_append)
    have "Suc i = length ?pre" "i < Suc i" "d = ?pre ! i"
      using Cons.prems by auto
    from Cons.IH[OF this a b] True show ?thesis by simp
  next
    case False
    have a: "\<forall>j<Suc i. v \<le> ?pre ! j"
      using Cons.prems False by (auto simp: nth_append less_Suc_eq)
    have b: "\<forall>j<best. v < ?pre ! j"
      using Cons.prems by (auto simp: nth_append)
    have "Suc i = length ?pre" "best < Suc i" "v = ?pre ! best"
      using Cons.prems by (auto simp: nth_append)
    from Cons.IH[OF this a b] False show ?thesis by simp
  qed
qed

lemma argmin_first_min:
  assumes "argmin ds = Inr i"
  shows "i < length ds \<and> (\<forall>j<length ds. ds ! i \<le> ds ! j) \<and> (\<forall>j<i. ds ! i < ds ! j)"
proof (cases ds)
  case Nil
  with assms show ?thesis by (simp add: argmin_def)
next
  case (Cons d rest)
  have "argmin_scan rest 1 0 d < length ([d] @ rest) \<and>
         (\<forall>j<length ([d] @ rest). ([d] @ rest) ! argmin_scan rest 1 0 d \<le> ([d] @ rest) ! j) \<and>
         (\<forall>j<argmin_scan rest 1 0 d. ([d] @ rest) ! argmin_scan rest 1 0 d < ([d] @ rest) ! j)"
    by (rule argmin_scan_spec) auto
  with assms Cons show ?thesis by (simp add: argmin_def)
qed

lemma argmin_nonempty: "ds \<noteq> [] \<Longrightarrow> \<exists>i. argmin ds = Inr i"
  by (cases ds) (auto simp: argmin_def)

lemma face_distance_length [simp]: "length (face_distance lib known face) = length known"
  by (simp add: face_distance_def)

lemma face_distance_nth:
  "m < length known \<Longrightarrow> face_distance lib known face ! m = encoding_distance lib (known ! m) face"
  by (simp add: face_distance_def)

text \<open>What the matcher returns on a well-formed, non-empty gallery.\<close>

lemma match_face_result:
  assumes ne: "known_face_encodings g \<noteq> []"
    and ids: "length (known_face_ids g) = length (known_face_encodings g)"
    and names: "length (known_face_names g) = length (known_face_encodings g)"
  shows "\<exists>i. argmin (face_distance lib (known_face_encodings g) face) = Inr i \<and>
           i < length (known_face_encodings g) \<and>
           (\<forall>m<length (known_face_encodings g).
               encoding_distance lib (known_face_encodings g ! i) face
                 \<le> encoding_distance lib (known_face_encodings g ! m) face) \<and>
           (\<forall>m<i. encoding_distance lib (known_face_encodings g ! i) face
                 < encoding_distance lib (known_face_encodings g ! m) face) \<and>
           match_face lib g face =
             Inr (if encoding_distance lib (known_face_encodings g ! i) face \<le> 0.5
                  then Some (known_face_ids g ! i, known_face_names g ! i) else None)"
proof -
  let ?ds = "face_distance lib (known_face_encodings g) face"
  have "?ds \<noteq> []" using ne by (simp add: face_distance_def)
  then obtain i where i: "argmin ?ds = Inr i" using argmin_nonempty by blast
  from argmin_first_min[OF i]
  have lt: "i < length (known_face_encodings g)"
    and mn: "\<forall>j<length (known_face_encodings g). ?ds ! i \<le> ?ds ! j"
    and first: "\<forall>j<i. ?ds ! i < ?ds ! j" by simp_all
  have m: "match_face lib g face =
             Inr (if ?ds ! i \<le> 0.5
                  then Some (known_face_ids g ! i, known_face_names g ! i) else None)"
    using i lt ids names
    by (simp add: match_face_def Let_def py_index_def FACE_RECOGNITION_TOLERANCE_def)
  show ?thesis
    using i lt mn first m by (auto simp: face_distance_nth intro!: exI[of _ i])
qed

section \<open>The matcher: nearest neighbour and ties\<close>

text \<open>
  Claim C1. On a non-empty gallery whose three lists have one entry per student, the
  matcher takes the distance from the face to every gallery entry, picks an index \<open>i\<close>
  whose distance is minimal, and labels the face with the name at \<open>i\<close> exactly when
  that distance is at most 0.5, with \<open>Unknown\<close> otherwise. The label is the one the
  command-line loop appends to \<open>face_labels\<close> and the one the GUI and the web page draw.
\<close>

theorem nearest_neighbour_match:
  assumes "known_face_encodings g \<noteq> []"
    and "length (known_face_ids g) = length (known_face_encodings g)"
    and "length (known_face_names g) = length (known_face_encodings g)"
  shows "\<exists>i<length (known_face_encodings g).
           (\<forall>m<length (known_face_encodings g).
               encoding_distance lib (known_face_encodings g ! i) face
                 \<le> encoding_distance lib (known_face_encodings g ! m) face) \<and>
           match_face lib g face =
             Inr (if encoding_distance lib (known_face_encodings g ! i) face \<le> 0.5
                  then Some (known_face_ids g ! i, known_face_names g ! i) else None) \<and>
           (\<exists>st'. process_face lib g (face, now) st = Inr st' \<and>
              face_labels st' = face_labels st @
                [if encoding_distance lib (known_face_encodings g ! i) face \<le> 0.5
                 then known_face_names g ! i else ''Unknown'']) \<and>
           (\<exists>gst'. gui_process_face lib g (face, now) gst =
              Inr (if encoding_distance lib (known_face_encodings g ! i) face \<le> 0.5
                   then known_face_names g ! i else ''Unknown'', gst')) \<and>
           (\<exists>wst'. web_process_face lib g (face, now) wst =
              Inr (if encoding_distance lib (known_face_encodings g ! i) face \<le> 0.5
                   then known_face_names g ! i else ''Unknown'', wst'))"
proof -
  from match_face_result[OF assms, of lib face]
  obtain i where lt: "i < length (known_face_encodings g)"
    and mn: "\<forall>m<length (known_face_encodings g).
               encoding_distance lib (known_face_encodings g ! i) face
                 \<le> encoding_distance lib (known_face_encodings g ! m) face"
    and m: "match_face lib g face =
             Inr (if encoding_distance lib (known_face_encodings g ! i) face \<le> 0.5
                  then Some (known_face_ids g ! i, known_face_names g ! i) else None)"
    by blast
  have cli: "\<exists>st'. process_face lib g (face, now) st = Inr st' \<and>
              face_labels st' = face_labels st @
                [if encoding_distance lib (known_face_encodings g ! i) face \<le> 0.5
                 then known_face_names g ! i else ''Unknown'']"
    using assms(1) m by (simp add: process_face_def Let_def)
  have gui: "\<exists>gst'. gui_process_face lib g (face, now) gst =
              Inr (if encoding_distance lib (known_face_encodings g ! i) face \<le> 0.5
                   then known_face_names g ! i else ''Unknown'', gst')"
    using assms(1) m by (simp add: gui_process_face_def)
  have web: "\<exists>wst'. web_process_face lib g (face, now) wst =
              Inr (if encoding_distance lib (known_face_encodings g ! i) face \<le> 0.5
                   then known_face_names g ! i else ''Unknown'', wst')"
    using assms(1) m by (simp add: web_process_face_def)
  from lt mn m cli gui web show ?thesis by blast
qed

theorem nearest_neighbour_match_witness:
  "known_face_encodings example_gallery \<noteq> [] \<and>
   length (known_face_ids example_gallery) = length (known_face_encodings example_gallery) \<and>
   length (known_face_names example_gallery) = length (known_face_encodings example_gallery) \<and>
   match_face example_lib example_gallery 0 = Inr (Some (''S2'', ''Bob'')) \<and>
   match_face example_lib example_gallery 1 = Inr (Some (''S1'', ''Alice'')) \<and>
   match_face example_lib example_gallery 2 = Inr None"
  using nearest_neighbour_match[of example_gallery example_lib 0]
  by (simp add: example_gallery_def example_lib_def match_face_def face_distance_def
      argmin_def py_index_def FACE_RECOGNITION_TOLERANCE_def)

text \<open>
  Claim C9. When the minimal distance is attained at an index \<open>j\<close> (and so at every
  index tied with it), the index the matcher selects is at most \<open>j\<close>, has the same
  distance, and every index before it has a strictly larger distance: it is the
  smallest index of minimal distance, and the student matched is the one stored there.
\<close>

theorem ties_select_first_index:
  assumes "known_face_encodings g \<noteq> []"
    and "length (known_face_ids g) = length (known_face_encodings g)"
    and "length (known_face_names g) = length (known_face_encodings g)"
    and j: "j < length (known_face_encodings g)"
    and jmin: "\<forall>m<length (known_face_encodings g).
               encoding_distance lib (known_face_encodings g ! j) face
                 \<le> encoding_distance lib (known_face_encodings g ! m) face"
  shows "\<exists>i\<le>j. argmin (face_distance lib (known_face_encodings g) face) = Inr i \<and>
           encoding_distance lib (known_face_encodings g ! i) face
             = encoding_distance lib (known_face_encodings g ! j) face \<and>
           (\<forall>m<i. encoding_distance lib (known_face_encodings g ! j) face
                     < encoding_distance lib (known_face_encodings g ! m) face) \<and>
           match_face lib g face =
             Inr (if encoding_distance lib (known_face_encodings g ! j) face \<le> 0.5
                  then Some (known_face_ids g ! i, known_face_names g ! i) else None)"
proof -
  let ?D = "\<lambda>m. encoding_distance lib (known_face_encodings g ! m) face"
  from match_face_result[OF assms(1-3), of lib face]
  obtain i where a: "argmin (face_distance lib (known_face_encodings g) face) = Inr i"
    and lt: "i < length (known_face_encodings g)"
    and mn: "\<forall>m<length (known_face_encodings g). ?D i \<le> ?D m"
    and first: "\<forall>m<i. ?D i < ?D m"
    and m: "match_face lib g face =
             Inr (if ?D i \<le> 0.5
                  then Some (known_face_ids g ! i, known_face_names g ! i) else None)"
    by blast
  have eq: "?D i = ?D j"
    using mn j jmin lt by (simp add: order_antisym)
  have le: "i \<le> j"
  proof (rule ccontr)
    assume "\<not> i \<le> j"
    then have "j < i" by simp
    with first have "?D i < ?D j" by blast
    with eq show False by simp
  qed
  from le a eq first m show ?thesis by auto
qed

theorem ties_select_first_index_witness:
  "\<exists>i\<le>2. argmin (face_distance example_lib (known_face_encodings example_gallery) 0) = Inr i \<and>
      i = 1 \<and> match_face example_lib example_gallery 0 = Inr (Some (''S2'', ''Bob''))"
proof -
  have "\<exists>i\<le>2. argmin (face_distance example_lib (known_face_encodings example_gallery) 0) = Inr i \<and>
           encoding_distance example_lib (known_face_encodings example_gallery ! i) 0
             = encoding_distance example_lib (known_face_encodings example_gallery ! 2) 0 \<and>
           (\<forall>m<i. encoding_distance example_lib (known_face_encodings example_gallery ! 2) 0
                     < encoding_distance example_lib (known_face_encodings example_gallery ! m) 0) \<and>
           match_face example_lib example_gallery 0 =
             Inr (if encoding_distance example_lib (known_face_encodings example_gallery ! 2) 0 \<le> 0.5
                  then Some (known_face_ids example_gallery ! i, known_face_names example_gallery ! i) else None)"
    by (rule ties_select_first_index)
       (simp_all add: example_gallery_def example_lib_def less_Suc_eq numeral_3_eq_3)
  then show ?thesis
    by (auto simp: example_gallery_def example_lib_def face_distance_def argmin_def)
qed

section \<open>Loading the gallery: lengths\<close>

lemma load_faces_loop_lengths:
  assumes "load_faces_loop lib w rows g = Inr g'"
    and "length (known_face_ids g) = length (known_face_encodings g)"
    and "length (known_face_names g) = length (known_face_encodings g)"
  shows "length (known_face_ids g') = length (known_face_encodings g') \<and>
         length (known_face_names g') = length (known_face_encodings g')"
  using assms
proof (induction rows arbitrary: g)
  case Nil
  then show ?case by simp
next
  case (Cons row rows)
  show ?case
  proof (cases "path_exists w (s_image_path row)")
    case False
    with Cons show ?thesis by simp
  next
    case True
    show ?thesis
    proof (cases "load_image_file lib w (s_image_path row)")
      case (Inl e)
      with True Cons.prems show ?thesis by simp
    next
      case (Inr img)
      show ?thesis
      proof (cases "face_encodings lib img")
        case Nil
        with True Inr Cons show ?thesis by simp
      next
        case (Cons e es)
        let ?g = "g\<lparr>known_face_encodings := known_face_encodings g @ [e],
                    known_face_ids := known_face_ids g @ [s_student_id row],
                    known_face_names := known_face_names g @ [s_name row]\<rparr>"
        have "load_faces_loop lib w rows ?g = Inr g'"
          using Cons.prems(1) True Inr Cons by simp
        moreover have "length (known_face_ids ?g) = length (known_face_encodings ?g)"
          "length (known_face_names ?g) = length (known_face_encodings ?g)"
          using Cons.prems by simp_all
        ultimately show ?thesis by (rule Cons.IH)
      qed
    qed
  qed
qed

lemma loaded_gallery_lengths:
  assumes "load_registered_faces lib w = Inr g \<or> gui_load_registered_faces lib w = Inr (b, g)
           \<or> load_face_encodings lib w rows = Inr g"
  shows "length (known_face_ids g) = length (known_face_encodings g) \<and>
         length (known_face_names g) = length (known_face_encodings g)"
proof -
  have e: "length (known_face_ids (empty_gallery :: 'a gallery)) = length (known_face_encodings (empty_gallery :: 'a gallery))"
     "length (known_face_names (empty_gallery :: 'a gallery)) = length (known_face_encodings (empty_gallery :: 'a gallery))"
    by (simp_all add: empty_gallery_def)
  have "g = empty_gallery \<or> (\<exists>rs. load_faces_loop lib w rs empty_gallery = Inr g)"
    using assms
    by (auto simp: load_registered_faces_def gui_load_registered_faces_def
        load_face_encodings_def Let_def split: if_splits sum.splits)
  then show ?thesis
    using e load_faces_loop_lengths[OF _ e] by blast
qed

text \<open>
  Claim C8. A gallery returned by \<^verbatim>\<open>load_registered_faces\<close> (of the command line or of
  the GUI) or by the web page's \<^verbatim>\<open>load_face_encodings\<close> has three lists of one length, so
  every index into the distances computed from it, the \<^verbatim>\<open>argmin\<close> index among them,
  reads \<open>known_face_ids\<close> and \<open>known_face_names\<close> in range, and the matcher never raises
  \<^verbatim>\<open>IndexError\<close>.
\<close>

theorem loaded_gallery_indices_in_bounds:
  assumes "load_registered_faces lib w = Inr g \<or> gui_load_registered_faces lib w = Inr (b, g)
           \<or> load_face_encodings lib w rows = Inr g"
  shows "length (known_face_ids g) = length (known_face_encodings g) \<and>
         length (known_face_names g) = length (known_face_encodings g) \<and>
         (\<forall>i<length (face_distance lib' (known_face_encodings g) face).
             py_index (known_face_ids g) i = Inr (known_face_ids g ! i) \<and>
             py_index (known_face_names g) i = Inr (known_face_names g ! i)) \<and>
         (\<forall>i. argmin (face_distance lib' (known_face_encodings g) face) = Inr i \<longrightarrow>
             i < length (known_face_ids g) \<and> i < length (known_face_names g)) \<and>
         match_face lib' g face \<noteq> Inl IndexError"
proof -
  from loaded_gallery_lengths[OF assms]
  have ids: "length (known_face_ids g) = length (known_face_encodings g)"
    and names: "length (known_face_names g) = length (known_face_encodings g)" by simp_all
  have idx: "\<forall>i<length (face_distance lib' (known_face_encodings g) face).
             py_index (known_face_ids g) i = Inr (known_face_ids g ! i) \<and>
             py_index (known_face_names g) i = Inr (known_face_names g ! i)"
    using ids names by (simp add: py_index_def)
  have am: "\<forall>i. argmin (face_distance lib' (known_face_encodings g) face) = Inr i \<longrightarrow>
             i < length (known_face_ids g) \<and> i < length (known_face_names g)"
    using ids names argmin_first_min by fastforce
  have nm: "match_face lib' g face \<noteq> Inl IndexError"
  proof (cases "known_face_encodings g = []")
    case True
    then show ?thesis
      by (simp add: match_face_def face_distance_def argmin_def)
  next
    case False
    from match_face_result[OF False ids names, of lib' face] show ?thesis by auto
  qed
  from ids names idx am nm show ?thesis by blast
qed

theorem loaded_gallery_indices_in_bounds_witness:
  "load_registered_faces example_lib example_world =
     Inr \<lparr>known_face_encodings = [0, 1], known_face_ids = [''S1'', ''S2''],
          known_face_names = [''Alice'', ''Bob'']\<rparr> \<and>
   py_index [''S1'', ''S2''] 1 = Inr ''S2'' \<and>
   match_face example_lib
     \<lparr>known_face_encodings = [0, 1], known_face_ids = [''S1'', ''S2''],
      known_face_names = [''Alice'', ''Bob'']\<rparr> 1 \<noteq> Inl IndexError"
  using loaded_gallery_indices_in_bounds[where lib = example_lib and w = example_world
      and g = "\<lparr>known_face_encodings = [0, 1], known_face_ids = [''S1'', ''S2''],
          known_face_names = [''Alice'', ''Bob'']\<rparr>" and lib' = example_lib and face = 1]
  by (simp add: load_registered_faces_def example_world_def example_students_def
      path_exists_def load_image_file_def example_lib_def empty_gallery_def py_index_def)

section \<open>Loading the gallery: contents\<close>

lemma load_faces_loop_all_decode:
  assumes "\<forall>row\<in>set rows. path_exists w (s_image_path row) \<longrightarrow>
             (\<exists>img. load_image_file lib w (s_image_path row) = Inr img)"
  shows "load_faces_loop lib w rows g =
     Inr (g\<lparr>known_face_encodings := known_face_encodings g @
               known_face_encodings (gallery_of_rows lib w rows),
            known_face_ids := known_face_ids g @ known_face_ids (gallery_of_rows lib w rows),
            known_face_names := known_face_names g @
               known_face_names (gallery_of_rows lib w rows)\<rparr>)"
  using assms
proof (induction rows arbitrary: g)
  case Nil
  then show ?case by (simp add: gallery_of_rows_def)
next
  case (Cons row rows)
  then have IH: "\<And>g. load_faces_loop lib w rows g =
     Inr (g\<lparr>known_face_encodings := known_face_encodings g @
               known_face_encodings (gallery_of_rows lib w rows),
            known_face_ids := known_face_ids g @ known_face_ids (gallery_of_rows lib w rows),
            known_face_names := known_face_names g @
               known_face_names (gallery_of_rows lib w rows)\<rparr>)"
    by simp
  show ?case
  proof (cases "path_exists w (s_image_path row)")
    case False
    then show ?thesis
      by (simp add: IH gallery_of_rows_def yields_encoding_def)
  next
    case True
    with Cons.prems obtain img where img: "load_image_file lib w (s_image_path row) = Inr img"
      by auto
    show ?thesis
    proof (cases "face_encodings lib img")
      case Nil
      with True img show ?thesis
        by (simp add: IH gallery_of_rows_def yields_encoding_def image_encodings_def)
    next
      case (Cons e es)
      with True img show ?thesis
        by (simp add: IH gallery_of_rows_def yields_encoding_def image_encodings_def)
    qed
  qed
qed

lemma load_faces_loop_raises:
  assumes "\<exists>row\<in>set rows. path_exists w (s_image_path row) \<and>
             (\<exists>e. load_image_file lib w (s_image_path row) = Inl e)"
  shows "\<exists>e. load_faces_loop lib w rows g = Inl e"
  using assms
proof (induction rows arbitrary: g)
  case Nil
  then show ?case by simp
next
  case (Cons row rows)
  show ?case
  proof (cases "path_exists w (s_image_path row) \<and>
             (\<exists>e. load_image_file lib w (s_image_path row) = Inl e)")
    case True
    then show ?thesis by auto
  next
    case False
    with Cons.prems have "\<exists>row\<in>set rows. path_exists w (s_image_path row) \<and>
             (\<exists>e. load_image_file lib w (s_image_path row) = Inl e)" by auto
    then have "\<And>g. \<exists>e. load_faces_loop lib w rows g = Inl e" by (rule Cons.IH)
    then show ?thesis
      by (auto split: sum.splits list.splits)
  qed
qed

lemma gallery_of_no_rows: "gallery_of_rows lib w [] = empty_gallery"
  by (simp add: gallery_of_rows_def empty_gallery_def)

text \<open>
  Claim C4, as the code has it. When every image file of the students table that exists
  can be decoded, \<^verbatim>\<open>load_registered_faces\<close> (and the GUI's loader, and the web
  page's on rows it reads afresh, with nothing memoised)
  returns the gallery of exactly the rows whose image file exists and yields an
  encoding, holding the first encoding, the id and the name of each in table order; rows
  with a missing file or without a face are skipped. When a file exists and cannot be
  decoded, the exception of \<^verbatim>\<open>load_image_file\<close> leaves the loader and no gallery is
  returned.
\<close>

theorem load_registered_faces_gallery:
  "((\<forall>row\<in>set (students (db w)). path_exists w (s_image_path row) \<longrightarrow>
             (\<exists>img. load_image_file lib w (s_image_path row) = Inr img)) \<longrightarrow>
          load_registered_faces lib w = Inr (gallery_of_rows lib w (students (db w))) \<and>
          gui_load_registered_faces lib w =
            Inr (filter (yields_encoding lib w) (students (db w)) \<noteq> [],
                 gallery_of_rows lib w (students (db w))) \<and>
          load_face_encodings lib w (load_registered_students None w) =
            Inr (gallery_of_rows lib w (students (db w)))) \<and>
         ((\<exists>row\<in>set (students (db w)). path_exists w (s_image_path row) \<and>
             (\<exists>e. load_image_file lib w (s_image_path row) = Inl e)) \<longrightarrow>
          (\<exists>e. load_registered_faces lib w = Inl e \<and> gui_load_registered_faces lib w = Inl e \<and>
               load_face_encodings lib w (load_registered_students None w) = Inl e))"
proof (intro conjI impI)
  assume a: "\<forall>row\<in>set (students (db w)). path_exists w (s_image_path row) \<longrightarrow>
             (\<exists>img. load_image_file lib w (s_image_path row) = Inr img)"
  have l: "load_faces_loop lib w (students (db w)) empty_gallery =
             Inr (gallery_of_rows lib w (students (db w)))"
    using load_faces_loop_all_decode[OF a, of empty_gallery]
    by (simp add: empty_gallery_def gallery_of_rows_def)
  show "load_registered_faces lib w = Inr (gallery_of_rows lib w (students (db w)))"
    using l by (cases "students (db w) = []")
      (simp_all add: load_registered_faces_def Let_def gallery_of_no_rows)
  show "gui_load_registered_faces lib w =
            Inr (filter (yields_encoding lib w) (students (db w)) \<noteq> [],
                 gallery_of_rows lib w (students (db w)))"
    using l by (cases "students (db w) = []")
      (simp_all add: gui_load_registered_faces_def Let_def gallery_of_no_rows,
       simp_all add: gallery_of_rows_def empty_gallery_def)
  show "load_face_encodings lib w (load_registered_students None w) =
            Inr (gallery_of_rows lib w (students (db w)))"
    using l by (simp add: load_face_encodings_def load_registered_students_def)
next
  assume b: "\<exists>row\<in>set (students (db w)). path_exists w (s_image_path row) \<and>
             (\<exists>e. load_image_file lib w (s_image_path row) = Inl e)"
  then have ne: "students (db w) \<noteq> []" by auto
  from load_faces_loop_raises[OF b, of empty_gallery]
  obtain e where "load_faces_loop lib w (students (db w)) empty_gallery = Inl e" by blast
  with ne show "\<exists>e. load_registered_faces lib w = Inl e \<and> gui_load_registered_faces lib w = Inl e \<and>
               load_face_encodings lib w (load_registered_students None w) = Inl e"
    by (simp add: load_registered_faces_def gui_load_registered_faces_def load_face_encodings_def
        load_registered_students_def Let_def)
qed

theorem load_registered_faces_gallery_witness:
  "load_registered_faces example_lib example_world =
     Inr (gallery_of_rows example_lib example_world (students (db example_world))) \<and>
   gallery_of_rows example_lib example_world (students (db example_world)) =
     \<lparr>known_face_encodings = [0, 1], known_face_ids = [''S1'', ''S2''],
      known_face_names = [''Alice'', ''Bob'']\<rparr> \<and>
   (\<exists>e. load_registered_faces example_lib damaged_world = Inl e)"
proof -
  have h: "\<forall>row\<in>set (students (db example_world)).
             path_exists example_world (s_image_path row) \<longrightarrow>
             (\<exists>img. load_image_file example_lib example_world (s_image_path row) = Inr img)"
    by (simp add: example_world_def example_students_def path_exists_def load_image_file_def
        example_lib_def)
  have d: "\<exists>row\<in>set (students (db damaged_world)).
             path_exists damaged_world (s_image_path row) \<and>
             (\<exists>e. load_image_file example_lib damaged_world (s_image_path row) = Inl e)"
    by (simp add: damaged_world_def example_world_def example_students_def path_exists_def
        load_image_file_def example_lib_def)
  have g: "gallery_of_rows example_lib example_world (students (db example_world)) =
     \<lparr>known_face_encodings = [0, 1], known_face_ids = [''S1'', ''S2''],
      known_face_names = [''Alice'', ''Bob'']\<rparr>"
    by (simp add: gallery_of_rows_def yields_encoding_def image_encodings_def example_world_def
        example_students_def path_exists_def load_image_file_def example_lib_def)
  from load_registered_faces_gallery[of example_world example_lib] h
  have 1: "load_registered_faces example_lib example_world =
     Inr (gallery_of_rows example_lib example_world (students (db example_world)))"
    by blast
  from load_registered_faces_gallery[of damaged_world example_lib] d
  have 2: "\<exists>e. load_registered_faces example_lib damaged_world = Inl e"
    by blast
  from 1 g 2 show ?thesis by simp
qed

text \<open>
  The claim as it was stated fails where a photo exists and is damaged: the loader
  raises and returns no gallery.
\<close>

theorem load_registered_faces_raises_counterexample:
  "path_exists damaged_world ''students/S2_Bob.jpg'' \<and>
   load_registered_faces example_lib damaged_world = Inl ImageError \<and>
   load_registered_faces example_lib damaged_world
     \<noteq> Inr (gallery_of_rows example_lib damaged_world (students (db damaged_world)))"
  by (simp add: load_registered_faces_def damaged_world_def example_world_def
      example_students_def path_exists_def load_image_file_def example_lib_def empty_gallery_def)

section \<open>Students marked today\<close>

text \<open>
  Claim C3. \<^verbatim>\<open>load_marked_students_today\<close> returns exactly the set of the student ids that
  have at least one attendance row whose date column equals the formatted current date;
  an id whose rows all carry other dates is not in the set.
\<close>

theorem load_marked_students_today_set:
  "load_marked_students_today today_str d =
     {sid. \<exists>r\<in>set (attendance d). a_student_id r = sid \<and> a_date r = today_str}"
  by (auto simp: load_marked_students_today_def)

theorem load_marked_students_today_set_witness:
  "load_marked_students_today ''2024-01-02'' (db example_world) = {''S2''} \<and>
   ''S1'' \<notin> load_marked_students_today ''2024-01-02'' (db example_world) \<and>
   load_marked_students_today ''2024-01-03'' (db example_world) = {}"
  using load_marked_students_today_set[of "''2024-01-02''" "db example_world"]
    load_marked_students_today_set[of "''2024-01-03''" "db example_world"]
  by (auto simp: example_world_def example_attendance_def)

section \<open>Marking from the command line\<close>

lemma fold_max_upper: "x \<in> set xs \<Longrightarrow> x \<le> fold max xs (s::nat)"
proof -
  assume "x \<in> set xs"
  then have "x \<le> Max (set (s # xs))" by simp
  then show ?thesis by (simp only: Max.set_eq_fold)
qed

lemma insert_attendance_rows:
  "\<exists>new_id. new_id \<notin> a_id ` set (attendance d) \<and> attendance_seq d < new_id \<and>
     insert_attendance student_id date_str time_str d =
       d\<lparr>attendance := attendance d @
            [\<lparr>a_id = new_id, a_student_id = student_id, a_date = date_str, a_time = time_str\<rparr>],
         attendance_seq := new_id\<rparr>"
proof -
  let ?n = "Suc (fold max (map a_id (attendance d)) (attendance_seq d))"
  have lt: "\<And>r. r \<in> set (attendance d) \<Longrightarrow> a_id r < ?n"
    using fold_max_upper[of _ "map a_id (attendance d)" "attendance_seq d"]
    by (fastforce simp: less_Suc_eq_le)
  have fresh: "?n \<notin> a_id ` set (attendance d)"
  proof
    assume "?n \<in> a_id ` set (attendance d)"
    then obtain r where "r \<in> set (attendance d)" "a_id r = ?n" by auto
    with lt[of r] show False by simp
  qed
  have "attendance_seq d \<le> fold max (map a_id (attendance d)) (attendance_seq d)"
    using Max.set_eq_fold[of "attendance_seq d" "map a_id (attendance d)"]
    by (metis List.finite_set Max_ge list.set_intros(1))
  then have "attendance_seq d < ?n" by simp
  with fresh show ?thesis
    by (auto simp: insert_attendance_def Let_def)
qed

text \<open>
  Claim C5. A call of the command line's \<^verbatim>\<open>mark_attendance\<close> adds exactly one row
  \<open>(student_id, date, time)\<close>, under an id no row had, at the end of the attendance
  table and leaves every earlier row as it was; the students table and the image files
  are unchanged; the CSV file gains exactly one data row after what it held (after the
  header line when the file did not exist).
\<close>

theorem mark_attendance_effect:
  "\<exists>new_id. new_id \<notin> a_id ` set (attendance (db w)) \<and>
     attendance (db (mark_attendance (date_str, time_str) student_id name w)) =
       attendance (db w) @
         [\<lparr>a_id = new_id, a_student_id = student_id, a_date = date_str, a_time = time_str\<rparr>] \<and>
     students (db (mark_attendance (date_str, time_str) student_id name w)) = students (db w) \<and>
     files (mark_attendance (date_str, time_str) student_id name w) = files w \<and>
     attendance_csv (mark_attendance (date_str, time_str) student_id name w) =
       Some ((case attendance_csv w of
                None \<Rightarrow> [[''Name'', ''Student ID'', ''Date'', ''Time'']]
              | Some rows \<Rightarrow> rows)
             @ [[name, student_id, date_str, time_str]])"
proof -
  from insert_attendance_rows[of "db w" student_id date_str time_str]
  obtain new_id where fresh: "new_id \<notin> a_id ` set (attendance (db w))"
    and ins: "insert_attendance student_id date_str time_str (db w) =
       (db w)\<lparr>attendance := attendance (db w) @
            [\<lparr>a_id = new_id, a_student_id = student_id, a_date = date_str, a_time = time_str\<rparr>],
         attendance_seq := new_id\<rparr>"
    by blast
  have csv: "attendance_csv (mark_attendance (date_str, time_str) student_id name w) =
       Some ((case attendance_csv w of
                None \<Rightarrow> [[''Name'', ''Student ID'', ''Date'', ''Time'']]
              | Some rows \<Rightarrow> rows)
             @ [[name, student_id, date_str, time_str]])"
    by (cases "attendance_csv w") (simp_all add: mark_attendance_def append_to_csv_def Let_def)
  have rows: "attendance (db (mark_attendance (date_str, time_str) student_id name w)) =
       attendance (db w) @
         [\<lparr>a_id = new_id, a_student_id = student_id, a_date = date_str, a_time = time_str\<rparr>]"
    by (simp add: mark_attendance_def append_to_csv_def Let_def ins)
  have st: "students (db (mark_attendance (date_str, time_str) student_id name w)) = students (db w)"
    by (simp add: mark_attendance_def append_to_csv_def Let_def ins)
  have fl: "files (mark_attendance (date_str, time_str) student_id name w) = files w"
    by (simp add: mark_attendance_def append_to_csv_def Let_def)
  from fresh rows st fl csv show ?thesis by blast
qed

theorem mark_attendance_effect_witness:
  "attendance (db (mark_attendance (''2024-01-03'', ''10:00:00'') ''S1'' ''Alice'' example_world)) =
     example_attendance @
       [\<lparr>a_id = 3, a_student_id = ''S1'', a_date = ''2024-01-03'', a_time = ''10:00:00''\<rparr>] \<and>
   attendance_csv (mark_attendance (''2024-01-03'', ''10:00:00'') ''S1'' ''Alice'' example_world) =
     Some [[''Name'', ''Student ID'', ''Date'', ''Time''],
           [''Alice'', ''S1'', ''2024-01-03'', ''10:00:00'']] \<and>
   students (db (mark_attendance (''2024-01-03'', ''10:00:00'') ''S1'' ''Alice'' example_world)) =
     example_students"
  using mark_attendance_effect[of example_world "''2024-01-03''" "''10:00:00''" "''S1''" "''Alice''"]
  by (auto simp: example_world_def example_attendance_def mark_attendance_def
      insert_attendance_def append_to_csv_def Let_def)

section \<open>Registration: validation before the database\<close>

lemma copy2_Inr:
  assumes "copy2 lib src dst w = Inr w'"
  shows "files w' dst = files w src \<and> files w src \<noteq> None \<and> db w' = db w \<and>
         attendance_csv w' = attendance_csv w"
  using assms by (auto simp: copy2_def split: if_splits option.splits)

lemma validate_and_copy_image_Inr:
  assumes "validate_and_copy_image lib src student_id name w = Inr (dest, w')"
  shows "path_exists w src \<and>
         (\<exists>img. load_image_file lib w src = Inr img \<and> length (face_locations lib img) = 1) \<and>
         dest = dest_image_path lib student_id name src \<and> copy2 lib src dest w = Inr w'"
proof -
  from assms have ex: "path_exists w src"
    by (auto simp: validate_and_copy_image_def split: if_splits)
  from assms ex obtain img where img: "load_image_file lib w src = Inr img"
    by (auto simp: validate_and_copy_image_def split: sum.splits)
  from assms ex img have n0: "length (face_locations lib img) \<noteq> 0"
    and n1: "\<not> length (face_locations lib img) > 1"
    by (auto simp: validate_and_copy_image_def Let_def split: if_splits)
  then have one: "length (face_locations lib img) = 1" by linarith
  from assms ex img n0 n1
  have "dest = dest_image_path lib student_id name src \<and> copy2 lib src dest w = Inr w'"
    by (auto simp: validate_and_copy_image_def Let_def split: if_splits sum.splits)
  with ex img one show ?thesis by blast
qed

lemma register_student_outcomes:
  fixes lib typed_id typed_name typed_path w
  defines "src \<equiv> strip_chars [CHR 0x27] (strip_chars [CHR 0x22] (str_strip lib typed_path))"
  defines "sid \<equiv> str_strip lib typed_id" and "nm \<equiv> str_strip lib typed_name"
  shows "(fst (register_student lib typed_id typed_name typed_path w) \<noteq> Registered \<and>
          snd (register_student lib typed_id typed_name typed_path w) = w) \<or>
         (fst (register_student lib typed_id typed_name typed_path w) = Registered \<and>
          path_exists w src \<and>
          (\<exists>img. load_image_file lib w src = Inr img \<and> length (face_locations lib img) = 1) \<and>
          (\<exists>w'. copy2 lib src (dest_image_path lib sid nm src) w = Inr w' \<and>
             snd (register_student lib typed_id typed_name typed_path w) =
               w'\<lparr>db := upsert_student sid nm (dest_image_path lib sid nm src) (db w')\<rparr>))"
proof (cases "sid = [] \<or> nm = [] \<or> src = []")
  case True
  then show ?thesis
    unfolding src_def sid_def nm_def
    by (auto simp: register_student_def Let_def)
next
  case False
  show ?thesis
  proof (cases "validate_and_copy_image lib src sid nm w")
    case (Inl e)
    with False show ?thesis
      unfolding src_def sid_def nm_def
      by (auto simp: register_student_def Let_def)
  next
    case (Inr p)
    obtain dest w' where p: "p = (dest, w')" by (cases p)
    from validate_and_copy_image_Inr[OF Inr[unfolded p]]
    have "path_exists w src"
      "\<exists>img. load_image_file lib w src = Inr img \<and> length (face_locations lib img) = 1"
      "dest = dest_image_path lib sid nm src" "copy2 lib src dest w = Inr w'"
      by blast+
    moreover have "register_student lib typed_id typed_name typed_path w =
        (Registered, w'\<lparr>db := upsert_student sid nm dest (db w')\<rparr>)"
      using False Inr p unfolding src_def sid_def nm_def
      by (simp add: register_student_def Let_def)
    ultimately show ?thesis by auto
  qed
qed

lemma gui_register_student_outcomes:
  fixes lib typed_id typed_name typed_path w
  defines "src \<equiv> str_strip lib typed_path"
  defines "sid \<equiv> str_strip lib typed_id" and "nm \<equiv> str_strip lib typed_name"
  shows "(fst (gui_register_student lib typed_id typed_name typed_path w) \<noteq> Registered \<and>
          snd (gui_register_student lib typed_id typed_name typed_path w) = w) \<or>
         (fst (gui_register_student lib typed_id typed_name typed_path w) = Registered \<and>
          path_exists w src \<and>
          (\<exists>img. load_image_file lib w src = Inr img \<and> length (face_locations lib img) = 1) \<and>
          (\<exists>w'. copy2 lib src (dest_image_path lib sid nm src) w = Inr w' \<and>
             snd (gui_register_student lib typed_id typed_name typed_path w) =
               w'\<lparr>db := upsert_student sid nm (dest_image_path lib sid nm src) (db w')\<rparr>))"
proof -
  let ?r = "gui_register_student lib typed_id typed_name typed_path w"
  show ?thesis
  proof (cases "fst ?r = Registered")
    case False
    then have "snd ?r = w"
      by (auto simp: gui_register_student_def Let_def split: if_splits sum.splits)
    with False show ?thesis by simp
  next
    case True
    then have ex: "path_exists w src"
      unfolding src_def
      by (auto simp: gui_register_student_def Let_def split: if_splits)
    from True ex obtain img where img: "load_image_file lib w src = Inr img"
      unfolding src_def
      by (auto simp: gui_register_student_def Let_def split: if_splits sum.splits)
    from True ex img have n0: "length (face_locations lib img) \<noteq> 0"
      and n1: "\<not> length (face_locations lib img) > 1"
      unfolding src_def
      by (auto simp: gui_register_student_def Let_def split: if_splits)
    then have one: "length (face_locations lib img) = 1" by linarith
    from True ex img n0 n1
    have "\<exists>w'. copy2 lib src (dest_image_path lib sid nm src) w = Inr w' \<and>
             snd ?r = w'\<lparr>db := upsert_student sid nm (dest_image_path lib sid nm src) (db w')\<rparr>"
      unfolding src_def sid_def nm_def
      by (auto simp: gui_register_student_def Let_def split: if_splits sum.splits)
    with True ex img one show ?thesis by blast
  qed
qed

lemma example_strip [simp]:
  "str_strip example_lib ''S5'' = ''S5''" "str_strip example_lib ''Eve'' = ''Eve''"
  "str_strip example_lib ''/home/photos/eve.png'' = ''/home/photos/eve.png''"
  "str_strip example_lib ''/home/photos/group.png'' = ''/home/photos/group.png''"
  "str_strip example_lib ''/home/photos/none.png'' = ''/home/photos/none.png''"
  "strip_chars [CHR 0x27] (strip_chars [CHR 0x22] ''/home/photos/eve.png'') = ''/home/photos/eve.png''"
  "strip_chars [CHR 0x27] (strip_chars [CHR 0x22] ''/home/photos/group.png'') = ''/home/photos/group.png''"
  "strip_chars [CHR 0x27] (strip_chars [CHR 0x22] ''/home/photos/none.png'') = ''/home/photos/none.png''"
  by (simp_all add: example_lib_def strip_chars_def)

lemma example_dest:
  "dest_image_path example_lib ''S5'' ''Eve'' ''/home/photos/eve.png'' = ''students/S5_Eve.png''"
  by (simp add: dest_image_path_def Let_def)
     (simp add: example_lib_def STUDENTS_DIR_def replace_spaces_def strip_chars_def)

lemma example_eve_file:
  "path_exists example_world ''/home/photos/eve.png''"
  "load_image_file example_lib example_world ''/home/photos/eve.png'' = Inr ''E''"
  "face_locations example_lib ''E'' = [0]"
  "\<exists>w'. copy2 example_lib ''/home/photos/eve.png'' ''students/S5_Eve.png'' example_world = Inr w'"
  by (simp_all add: path_exists_def load_image_file_def copy2_def example_world_def
      example_lib_def)

lemma example_register_eve:
  "fst (register_student example_lib ''S5'' ''Eve'' ''/home/photos/eve.png'' example_world) = Registered"
  using example_eve_file(4)
  by (auto simp: register_student_def validate_and_copy_image_def Let_def example_dest
      example_eve_file(1-3))

lemma example_register_group:
  "register_student example_lib ''S5'' ''Eve'' ''/home/photos/group.png'' example_world
     = (Rejected, example_world)"
  by (simp add: register_student_def validate_and_copy_image_def path_exists_def
      load_image_file_def Let_def)
     (simp add: example_lib_def example_world_def)

lemma example_register_none:
  "gui_register_student example_lib ''S5'' ''Eve'' ''/home/photos/none.png'' example_world
     = (Rejected, example_world)"
  by (simp add: gui_register_student_def path_exists_def Let_def)
     (simp add: example_lib_def example_world_def)

text \<open>
  Claim C10. For \<^verbatim>\<open>register_student\<close> of the command line and of the GUI, on the
  source path each of them uses: when the file does not exist, the image cannot be
  loaded, or the number of faces located is not one, the student is not registered and
  nothing is changed; whenever the student is not registered nothing is changed; and
  when the student is registered, exactly one face was located, the photo has been
  copied to its destination under the students directory, and the database is the old
  one with the row upserted.
\<close>

theorem registration_validation:
  fixes lib :: "('img, 'enc) face_lib" and typed_id typed_name typed_path :: string and w :: world
  defines "sid \<equiv> str_strip lib typed_id" and "nm \<equiv> str_strip lib typed_name"
  defines "src \<equiv> strip_chars [CHR 0x27] (strip_chars [CHR 0x22] (str_strip lib typed_path))"
  defines "gsrc \<equiv> str_strip lib typed_path"
  defines "r \<equiv> register_student lib typed_id typed_name typed_path w"
  defines "gr \<equiv> gui_register_student lib typed_id typed_name typed_path w"
  shows "((\<not> path_exists w src \<or> (\<exists>e. load_image_file lib w src = Inl e) \<or>
           (\<exists>img. load_image_file lib w src = Inr img \<and> length (face_locations lib img) \<noteq> 1))
            \<longrightarrow> fst r \<noteq> Registered \<and> snd r = w) \<and>
         (fst r \<noteq> Registered \<longrightarrow> snd r = w) \<and>
         (fst r = Registered \<longrightarrow>
            (\<exists>img. load_image_file lib w src = Inr img \<and> length (face_locations lib img) = 1) \<and>
            files w src \<noteq> None \<and>
            files (snd r) (dest_image_path lib sid nm src) = files w src \<and>
            db (snd r) = upsert_student sid nm (dest_image_path lib sid nm src) (db w)) \<and>
         ((\<not> path_exists w gsrc \<or> (\<exists>e. load_image_file lib w gsrc = Inl e) \<or>
           (\<exists>img. load_image_file lib w gsrc = Inr img \<and> length (face_locations lib img) \<noteq> 1))
            \<longrightarrow> fst gr \<noteq> Registered \<and> snd gr = w) \<and>
         (fst gr \<noteq> Registered \<longrightarrow> snd gr = w) \<and>
         (fst gr = Registered \<longrightarrow>
            (\<exists>img. load_image_file lib w gsrc = Inr img \<and> length (face_locations lib img) = 1) \<and>
            files w gsrc \<noteq> None \<and>
            files (snd gr) (dest_image_path lib sid nm gsrc) = files w gsrc \<and>
            db (snd gr) = upsert_student sid nm (dest_image_path lib sid nm gsrc) (db w))"
proof -
  have cli: "(fst r \<noteq> Registered \<and> snd r = w) \<or>
         (fst r = Registered \<and> path_exists w src \<and>
          (\<exists>img. load_image_file lib w src = Inr img \<and> length (face_locations lib img) = 1) \<and>
          (\<exists>w'. copy2 lib src (dest_image_path lib sid nm src) w = Inr w' \<and>
             snd r = w'\<lparr>db := upsert_student sid nm (dest_image_path lib sid nm src) (db w')\<rparr>))"
    unfolding r_def src_def sid_def nm_def by (rule register_student_outcomes)
  have gui: "(fst gr \<noteq> Registered \<and> snd gr = w) \<or>
         (fst gr = Registered \<and> path_exists w gsrc \<and>
          (\<exists>img. load_image_file lib w gsrc = Inr img \<and> length (face_locations lib img) = 1) \<and>
          (\<exists>w'. copy2 lib gsrc (dest_image_path lib sid nm gsrc) w = Inr w' \<and>
             snd gr = w'\<lparr>db := upsert_student sid nm (dest_image_path lib sid nm gsrc) (db w')\<rparr>))"
    unfolding gr_def gsrc_def sid_def nm_def by (rule gui_register_student_outcomes)
  have gen: "\<And>(x :: outcome \<times> world) p.
     (fst x \<noteq> Registered \<and> snd x = w) \<or>
     (fst x = Registered \<and> path_exists w p \<and>
      (\<exists>img. load_image_file lib w p = Inr img \<and> length (face_locations lib img) = 1) \<and>
      (\<exists>w'. copy2 lib p (dest_image_path lib sid nm p) w = Inr w' \<and>
         snd x = w'\<lparr>db := upsert_student sid nm (dest_image_path lib sid nm p) (db w')\<rparr>)) \<Longrightarrow>
     ((\<not> path_exists w p \<or> (\<exists>e. load_image_file lib w p = Inl e) \<or>
           (\<exists>img. load_image_file lib w p = Inr img \<and> length (face_locations lib img) \<noteq> 1))
            \<longrightarrow> fst x \<noteq> Registered \<and> snd x = w) \<and>
         (fst x \<noteq> Registered \<longrightarrow> snd x = w) \<and>
         (fst x = Registered \<longrightarrow>
            (\<exists>img. load_image_file lib w p = Inr img \<and> length (face_locations lib img) = 1) \<and>
            files w p \<noteq> None \<and>
            files (snd x) (dest_image_path lib sid nm p) = files w p \<and>
            db (snd x) = upsert_student sid nm (dest_image_path lib sid nm p) (db w))"
  proof -
    fix x :: "outcome \<times> world" and p
    assume "(fst x \<noteq> Registered \<and> snd x = w) \<or>
     (fst x = Registered \<and> path_exists w p \<and>
      (\<exists>img. load_image_file lib w p = Inr img \<and> length (face_locations lib img) = 1) \<and>
      (\<exists>w'. copy2 lib p (dest_image_path lib sid nm p) w = Inr w' \<and>
         snd x = w'\<lparr>db := upsert_student sid nm (dest_image_path lib sid nm p) (db w')\<rparr>))"
    then show "((\<not> path_exists w p \<or> (\<exists>e. load_image_file lib w p = Inl e) \<or>
           (\<exists>img. load_image_file lib w p = Inr img \<and> length (face_locations lib img) \<noteq> 1))
            \<longrightarrow> fst x \<noteq> Registered \<and> snd x = w) \<and>
         (fst x \<noteq> Registered \<longrightarrow> snd x = w) \<and>
         (fst x = Registered \<longrightarrow>
            (\<exists>img. load_image_file lib w p = Inr img \<and> length (face_locations lib img) = 1) \<and>
            files w p \<noteq> None \<and>
            files (snd x) (dest_image_path lib sid nm p) = files w p \<and>
            db (snd x) = upsert_student sid nm (dest_image_path lib sid nm p) (db w))"
    proof (elim disjE conjE exE)
      assume "fst x \<noteq> Registered" "snd x = w"
      then show ?thesis by simp
    next
      fix img w'
      assume a: "fst x = Registered" "path_exists w p" "load_image_file lib w p = Inr img"
        "length (face_locations lib img) = 1"
        "copy2 lib p (dest_image_path lib sid nm p) w = Inr w'"
        "snd x = w'\<lparr>db := upsert_student sid nm (dest_image_path lib sid nm p) (db w')\<rparr>"
      from copy2_Inr[OF a(5)] a show ?thesis by simp
    qed
  qed
  from gen[OF cli] gen[OF gui] show ?thesis by blast
qed

theorem registration_validation_witness:
  "fst (register_student example_lib ''S5'' ''Eve'' ''/home/photos/eve.png'' example_world)
     = Registered \<and>
   students (db (snd (register_student example_lib ''S5'' ''Eve'' ''/home/photos/eve.png''
      example_world))) =
     example_students @
       [\<lparr>s_student_id = ''S5'', s_name = ''Eve'', s_image_path = ''students/S5_Eve.png''\<rparr>] \<and>
   files (snd (register_student example_lib ''S5'' ''Eve'' ''/home/photos/eve.png''
      example_world)) ''students/S5_Eve.png'' = Some ''E'' \<and>
   register_student example_lib ''S5'' ''Eve'' ''/home/photos/group.png'' example_world
     = (Rejected, example_world) \<and>
   gui_register_student example_lib ''S5'' ''Eve'' ''/home/photos/none.png'' example_world
     = (Rejected, example_world)"
  using registration_validation[where lib = example_lib and typed_id = "''S5''"
      and typed_name = "''Eve''" and typed_path = "''/home/photos/eve.png''"
      and w = example_world]
    example_register_eve example_register_group example_register_none
  by (simp add: example_dest upsert_student_def)
     (simp add: example_world_def example_students_def)

section \<open>The duplicate guard of the camera loops\<close>

lemma recognised_ids_Nil [simp]: "recognised_ids lib g [] = {}"
  by (simp add: recognised_ids_def List.map_filter_simps)

lemma recognised_ids_Cons:
  "recognised_ids lib g (face # faces) =
     (case recognised lib g (fst face) of
        None \<Rightarrow> recognised_ids lib g faces
      | Some p \<Rightarrow> insert (fst p) (recognised_ids lib g faces))"
  by (simp add: recognised_ids_def List.map_filter_simps split: option.splits)

lemma recognised_ids_iff:
  "sid \<in> recognised_ids lib g faces \<longleftrightarrow>
     (\<exists>face\<in>set faces. \<exists>name. recognised lib g (fst face) = Some (sid, name))"
  by (induction faces) (auto simp: recognised_ids_Cons split: option.splits)

lemma recognised_ids_append:
  "recognised_ids lib g (xs @ ys) = recognised_ids lib g xs \<union> recognised_ids lib g ys"
  by (induction xs) (auto simp: recognised_ids_Cons split: option.splits)

lemma first_match_rows_Nil: "first_match_rows lib g [] marked []"
  by (simp add: first_match_rows_def)

lemma first_match_rows_skip:
  assumes "recognised lib g (fst face) = None \<or>
           (\<exists>sid name. recognised lib g (fst face) = Some (sid, name) \<and> sid \<in> marked)"
    and rest: "first_match_rows lib g faces marked news"
  shows "first_match_rows lib g (face # faces) marked news"
proof -
  from rest have d: "distinct (map a_student_id news)"
    and s: "set (map a_student_id news) = recognised_ids lib g faces - marked"
    and f: "\<forall>r\<in>set news. \<exists>pre fc post name.
          faces = pre @ fc # post \<and>
          recognised lib g (fst fc) = Some (a_student_id r, name) \<and>
          (a_date r, a_time r) = snd fc \<and>
          (\<forall>f\<in>set pre. \<forall>n. recognised lib g (fst f) \<noteq> Some (a_student_id r, n))"
    unfolding first_match_rows_def by blast+
  have s': "set (map a_student_id news) = recognised_ids lib g (face # faces) - marked"
    using assms(1) s by (auto simp: recognised_ids_Cons)
  have f': "\<forall>r\<in>set news. \<exists>pre fc post name.
          face # faces = pre @ fc # post \<and>
          recognised lib g (fst fc) = Some (a_student_id r, name) \<and>
          (a_date r, a_time r) = snd fc \<and>
          (\<forall>f\<in>set pre. \<forall>n. recognised lib g (fst f) \<noteq> Some (a_student_id r, n))"
  proof
    fix r assume r: "r \<in> set news"
    with f obtain pre fc post name where p: "faces = pre @ fc # post"
      "recognised lib g (fst fc) = Some (a_student_id r, name)"
      "(a_date r, a_time r) = snd fc"
      "\<forall>f\<in>set pre. \<forall>n. recognised lib g (fst f) \<noteq> Some (a_student_id r, n)"
      by blast
    from r s have nm: "a_student_id r \<notin> marked" by auto
    have this_face: "\<forall>n. recognised lib g (fst face) \<noteq> Some (a_student_id r, n)"
      using assms(1) nm by auto
    have "face # faces = (face # pre) @ fc # post" using p(1) by simp
    moreover have "\<forall>f\<in>set (face # pre). \<forall>n. recognised lib g (fst f) \<noteq> Some (a_student_id r, n)"
      using p(4) this_face by simp
    ultimately show "\<exists>pre fc post name.
          face # faces = pre @ fc # post \<and>
          recognised lib g (fst fc) = Some (a_student_id r, name) \<and>
          (a_date r, a_time r) = snd fc \<and>
          (\<forall>f\<in>set pre. \<forall>n. recognised lib g (fst f) \<noteq> Some (a_student_id r, n))"
      using p(2,3) by blast
  qed
  from d s' f' show ?thesis unfolding first_match_rows_def by blast
qed

lemma first_match_rows_mark:
  assumes rec: "recognised lib g (fst face) = Some (sid, name)"
    and nm: "sid \<notin> marked"
    and row: "a_student_id r = sid" "(a_date r, a_time r) = snd face"
    and rest: "first_match_rows lib g faces (insert sid marked) news"
  shows "first_match_rows lib g (face # faces) marked (r # news)"
proof -
  from rest have d: "distinct (map a_student_id news)"
    and s: "set (map a_student_id news) = recognised_ids lib g faces - insert sid marked"
    and f: "\<forall>r\<in>set news. \<exists>pre fc post name.
          faces = pre @ fc # post \<and>
          recognised lib g (fst fc) = Some (a_student_id r, name) \<and>
          (a_date r, a_time r) = snd fc \<and>
          (\<forall>f\<in>set pre. \<forall>n. recognised lib g (fst f) \<noteq> Some (a_student_id r, n))"
    unfolding first_match_rows_def by blast+
  have d': "distinct (map a_student_id (r # news))"
    using d s row(1) by auto
  have s': "set (map a_student_id (r # news)) = recognised_ids lib g (face # faces) - marked"
    using s rec nm row(1) by (auto simp: recognised_ids_Cons)
  have f': "\<forall>x\<in>set (r # news). \<exists>pre fc post name.
          face # faces = pre @ fc # post \<and>
          recognised lib g (fst fc) = Some (a_student_id x, name) \<and>
          (a_date x, a_time x) = snd fc \<and>
          (\<forall>f\<in>set pre. \<forall>n. recognised lib g (fst f) \<noteq> Some (a_student_id x, n))"
  proof
    fix x assume x: "x \<in> set (r # news)"
    show "\<exists>pre fc post name.
          face # faces = pre @ fc # post \<and>
          recognised lib g (fst fc) = Some (a_student_id x, name) \<and>
          (a_date x, a_time x) = snd fc \<and>
          (\<forall>f\<in>set pre. \<forall>n. recognised lib g (fst f) \<noteq> Some (a_student_id x, n))"
    proof (cases "x = r")
      case True
      have "face # faces = [] @ face # faces" by simp
      moreover have "recognised lib g (fst face) = Some (a_student_id x, name)"
        using True rec row(1) by simp
      moreover have "(a_date x, a_time x) = snd face" using True row(2) by simp
      moreover have "\<forall>f\<in>set []. \<forall>n. recognised lib g (fst f) \<noteq> Some (a_student_id x, n)"
        by simp
      ultimately show ?thesis by blast
    next
      case False
      with x have xin: "x \<in> set news" by simp
      with f obtain pre fc post nm' where p: "faces = pre @ fc # post"
        "recognised lib g (fst fc) = Some (a_student_id x, nm')"
        "(a_date x, a_time x) = snd fc"
        "\<forall>f\<in>set pre. \<forall>n. recognised lib g (fst f) \<noteq> Some (a_student_id x, n)"
        by blast
      from xin s have "a_student_id x \<noteq> sid" by auto
      then have this_face: "\<forall>n. recognised lib g (fst face) \<noteq> Some (a_student_id x, n)"
        using rec by auto
      have "face # faces = (face # pre) @ fc # post" using p(1) by simp
      moreover have "\<forall>f\<in>set (face # pre). \<forall>n.
          recognised lib g (fst f) \<noteq> Some (a_student_id x, n)"
        using p(4) this_face by simp
      ultimately show ?thesis using p(2,3) by blast
    qed
  qed
  from d' s' f' show ?thesis unfolding first_match_rows_def by blast
qed

text \<open>A way of marking that adds one row for the student, stamped with the time given.\<close>

lemma marks_of_run_rows:
  assumes mark: "\<And>now sid name w. \<exists>r. a_student_id r = sid \<and> (a_date r, a_time r) = now \<and>
                   attendance (db (mark now sid name w)) = attendance (db w) @ [r]"
  shows "\<exists>news. attendance (db (fst (marks_of_run mark lib g faces (w, marked)))) =
                  attendance (db w) @ news \<and>
           first_match_rows lib g faces marked news \<and>
           snd (marks_of_run mark lib g faces (w, marked)) =
             marked \<union> recognised_ids lib g faces"
proof (induction faces arbitrary: w marked)
  case Nil
  show ?case by (simp add: first_match_rows_Nil)
next
  case (Cons face faces)
  show ?case
  proof (cases "recognised lib g (fst face)")
    case None
    from Cons.IH[of w marked] obtain news where
      n: "attendance (db (fst (marks_of_run mark lib g faces (w, marked)))) =
            attendance (db w) @ news"
      "first_match_rows lib g faces marked news"
      "snd (marks_of_run mark lib g faces (w, marked)) = marked \<union> recognised_ids lib g faces"
      by blast
    have "first_match_rows lib g (face # faces) marked news"
      using None n(2) by (intro first_match_rows_skip) auto
    with n(1,3) None show ?thesis
      by (auto simp: first_match_wins_def recognised_ids_Cons)
  next
    case (Some p)
    obtain sid name where p: "p = (sid, name)" by (cases p)
    show ?thesis
    proof (cases "sid \<in> marked")
      case True
      from Cons.IH[of w marked] obtain news where
        n: "attendance (db (fst (marks_of_run mark lib g faces (w, marked)))) =
              attendance (db w) @ news"
        "first_match_rows lib g faces marked news"
        "snd (marks_of_run mark lib g faces (w, marked)) = marked \<union> recognised_ids lib g faces"
        by blast
      have "first_match_rows lib g (face # faces) marked news"
        using Some p True n(2) by (intro first_match_rows_skip) auto
      with n(1,3) Some p True show ?thesis
        by (auto simp: first_match_wins_def recognised_ids_Cons)
    next
      case False
      from mark[of sid "snd face" name w] obtain r where
        r: "a_student_id r = sid" "(a_date r, a_time r) = snd face"
        "attendance (db (mark (snd face) sid name w)) = attendance (db w) @ [r]"
        by blast
      from Cons.IH[of "mark (snd face) sid name w" "insert sid marked"] obtain news where
        n: "attendance (db (fst (marks_of_run mark lib g faces
              (mark (snd face) sid name w, insert sid marked)))) =
              attendance (db (mark (snd face) sid name w)) @ news"
        "first_match_rows lib g faces (insert sid marked) news"
        "snd (marks_of_run mark lib g faces (mark (snd face) sid name w, insert sid marked)) =
           insert sid marked \<union> recognised_ids lib g faces"
        by blast
      have fm: "first_match_rows lib g (face # faces) marked (r # news)"
        using Some p False r(1,2) n(2) by (intro first_match_rows_mark) auto
      have step: "marks_of_run mark lib g (face # faces) (w, marked) =
          marks_of_run mark lib g faces (mark (snd face) sid name w, insert sid marked)"
        using Some p False by (simp add: first_match_wins_def)
      have "attendance (db (fst (marks_of_run mark lib g (face # faces) (w, marked)))) =
              attendance (db w) @ (r # news)"
        using step n(1) r(3) by simp
      moreover have "snd (marks_of_run mark lib g (face # faces) (w, marked)) =
             marked \<union> recognised_ids lib g (face # faces)"
        using step n(3) Some p by (auto simp: recognised_ids_Cons)
      ultimately show ?thesis using fm by blast
    qed
  qed
qed

lemma marks_of_run_append:
  "marks_of_run mark lib g (xs @ ys) s = marks_of_run mark lib g ys (marks_of_run mark lib g xs s)"
  by (induction xs arbitrary: s) simp_all

lemma marking_adds_row:
  "\<exists>r. a_student_id r = sid \<and> (a_date r, a_time r) = now \<and>
       attendance (db (mark_attendance now sid name w)) = attendance (db w) @ [r]"
  "\<exists>r. a_student_id r = sid \<and> (a_date r, a_time r) = now \<and>
       attendance (db (gui_mark_attendance now sid name w)) = attendance (db w) @ [r]"
  "\<exists>r. a_student_id r = sid \<and> (a_date r, a_time r) = now \<and>
       attendance (db (web_mark_attendance now sid w)) = attendance (db w) @ [r]"
proof -
  from insert_attendance_rows[of "db w" sid "fst now" "snd now"]
  obtain new_id where i: "insert_attendance sid (fst now) (snd now) (db w) =
       (db w)\<lparr>attendance := attendance (db w) @
            [\<lparr>a_id = new_id, a_student_id = sid, a_date = fst now, a_time = snd now\<rparr>],
         attendance_seq := new_id\<rparr>"
    by blast
  let ?r = "\<lparr>a_id = new_id, a_student_id = sid, a_date = fst now, a_time = snd now\<rparr>"
  have r: "a_student_id ?r = sid \<and> (a_date ?r, a_time ?r) = now" by simp
  have "attendance (db (mark_attendance now sid name w)) = attendance (db w) @ [?r]"
    by (simp add: mark_attendance_def append_to_csv_def Let_def i)
  with r show "\<exists>r. a_student_id r = sid \<and> (a_date r, a_time r) = now \<and>
       attendance (db (mark_attendance now sid name w)) = attendance (db w) @ [r]" by blast
  have "attendance (db (gui_mark_attendance now sid name w)) = attendance (db w) @ [?r]"
    by (simp add: gui_mark_attendance_def Let_def i)
  with r show "\<exists>r. a_student_id r = sid \<and> (a_date r, a_time r) = now \<and>
       attendance (db (gui_mark_attendance now sid name w)) = attendance (db w) @ [r]" by blast
  have "attendance (db (web_mark_attendance now sid w)) = attendance (db w) @ [?r]"
    by (simp add: web_mark_attendance_def Let_def i)
  with r show "\<exists>r. a_student_id r = sid \<and> (a_date r, a_time r) = now \<and>
       attendance (db (web_mark_attendance now sid w)) = attendance (db w) @ [r]" by blast
qed

text \<open>On a gallery with lists of one length the matcher returns, so a face is
  recognised exactly as the matcher says.\<close>

lemma match_face_recognised:
  assumes "known_face_encodings g \<noteq> []"
    and "length (known_face_ids g) = length (known_face_encodings g)"
    and "length (known_face_names g) = length (known_face_encodings g)"
  shows "match_face lib g face_encoding = Inr (recognised lib g face_encoding)"
proof -
  from match_face_result[OF assms, of lib face_encoding]
  obtain r where "match_face lib g face_encoding = Inr r" by blast
  then show ?thesis using assms(1) by (simp add: recognised_def)
qed

lemma process_face_marks:
  assumes "length (known_face_ids g) = length (known_face_encodings g)"
    and "length (known_face_names g) = length (known_face_encodings g)"
  shows "\<exists>st'. process_face lib g face st = Inr st' \<and>
           (the_world st', students_marked_today st') =
             first_match_wins mark_attendance (recognised lib g (fst face)) (snd face)
               (the_world st, students_marked_today st)"
proof (cases "known_face_encodings g = []")
  case True
  then show ?thesis
    by (simp add: process_face_def recognised_def first_match_wins_def)
next
  case False
  from match_face_recognised[OF False assms, of lib "fst face"] False
  show ?thesis
    by (cases "recognised lib g (fst face)")
      (auto simp: process_face_def first_match_wins_def Let_def)
qed

lemma gui_process_face_marks:
  assumes "length (known_face_ids g) = length (known_face_encodings g)"
    and "length (known_face_names g) = length (known_face_encodings g)"
  shows "\<exists>label. gui_process_face lib g face st =
           Inr (label, first_match_wins gui_mark_attendance (recognised lib g (fst face))
                         (snd face) st)"
proof (cases "known_face_encodings g = []")
  case True
  then show ?thesis
    by (simp add: gui_process_face_def recognised_def first_match_wins_def)
next
  case False
  from match_face_recognised[OF False assms, of lib "fst face"] False
  show ?thesis
    by (cases "recognised lib g (fst face)"; cases st)
      (auto simp: gui_process_face_def first_match_wins_def)
qed

lemma web_process_face_marks:
  assumes "length (known_face_ids g) = length (known_face_encodings g)"
    and "length (known_face_names g) = length (known_face_encodings g)"
  shows "\<exists>label. web_process_face lib g face st =
           Inr (label, first_match_wins (\<lambda>now sid name. web_mark_attendance now sid)
                         (recognised lib g (fst face)) (snd face) st)"
proof (cases "known_face_encodings g = []")
  case True
  then show ?thesis
    by (simp add: web_process_face_def recognised_def first_match_wins_def)
next
  case False
  from match_face_recognised[OF False assms, of lib "fst face"] False
  show ?thesis
    by (cases "recognised lib g (fst face)"; cases st)
      (auto simp: web_process_face_def first_match_wins_def)
qed

lemma process_faces_marks:
  assumes "length (known_face_ids g) = length (known_face_encodings g)"
    and "length (known_face_names g) = length (known_face_encodings g)"
  shows "\<exists>st'. process_faces lib g faces st = Inr st' \<and>
           (the_world st', students_marked_today st') =
             marks_of_run mark_attendance lib g faces (the_world st, students_marked_today st)"
proof (induction faces arbitrary: st)
  case Nil
  show ?case by simp
next
  case (Cons face faces)
  from process_face_marks[OF assms, of lib face st]
  obtain st1 where s1: "process_face lib g face st = Inr st1"
    "(the_world st1, students_marked_today st1) =
       first_match_wins mark_attendance (recognised lib g (fst face)) (snd face)
         (the_world st, students_marked_today st)" by blast
  from Cons.IH[of st1] obtain st2 where s2: "process_faces lib g faces st1 = Inr st2"
    "(the_world st2, students_marked_today st2) =
       marks_of_run mark_attendance lib g faces (the_world st1, students_marked_today st1)"
    by blast
  from s1 s2 show ?case by simp
qed

lemma gui_process_faces_marks:
  assumes "length (known_face_ids g) = length (known_face_encodings g)"
    and "length (known_face_names g) = length (known_face_encodings g)"
  shows "gui_process_faces lib g faces st = Inr (marks_of_run gui_mark_attendance lib g faces st)"
proof (induction faces arbitrary: st)
  case Nil
  show ?case by simp
next
  case (Cons face faces)
  from gui_process_face_marks[OF assms, of lib face st]
  obtain label where "gui_process_face lib g face st =
           Inr (label, first_match_wins gui_mark_attendance (recognised lib g (fst face))
                         (snd face) st)" by blast
  with Cons.IH show ?case by simp
qed

lemma web_process_faces_marks:
  assumes "length (known_face_ids g) = length (known_face_encodings g)"
    and "length (known_face_names g) = length (known_face_encodings g)"
  shows "web_process_faces lib g faces st =
           Inr (marks_of_run (\<lambda>now sid name. web_mark_attendance now sid) lib g faces st)"
proof (induction faces arbitrary: st)
  case Nil
  show ?case by simp
next
  case (Cons face faces)
  from web_process_face_marks[OF assms, of lib face st]
  obtain label where "web_process_face lib g face st =
           Inr (label, first_match_wins (\<lambda>now sid name. web_mark_attendance now sid)
                         (recognised lib g (fst face)) (snd face) st)" by blast
  with Cons.IH show ?case by simp
qed

lemma camera_loop_marks:
  assumes "length (known_face_ids g) = length (known_face_encodings g)"
    and "length (known_face_names g) = length (known_face_encodings g)"
  shows "\<exists>st'. camera_loop lib g events st = Inr st' \<and>
           (the_world st', students_marked_today st') =
             marks_of_run mark_attendance lib g (processed_faces events)
               (the_world st, students_marked_today st)"
proof (induction events arbitrary: st)
  case Nil
  show ?case by simp
next
  case (Cons ev events)
  show ?case
  proof (cases ev)
    case ReadFailed
    then show ?thesis by simp
  next
    case (Frame faces quit)
    from process_faces_marks[OF assms, of lib faces "st\<lparr>face_labels := []\<rparr>"]
    obtain st1 where s1: "process_faces lib g faces (st\<lparr>face_labels := []\<rparr>) = Inr st1"
      "(the_world st1, students_marked_today st1) =
         marks_of_run mark_attendance lib g faces (the_world st, students_marked_today st)"
      by auto
    show ?thesis
    proof (cases quit)
      case True
      with Frame s1 show ?thesis by simp
    next
      case False
      from Cons.IH[of st1] obtain st2 where s2: "camera_loop lib g events st1 = Inr st2"
        "(the_world st2, students_marked_today st2) =
           marks_of_run mark_attendance lib g (processed_faces events)
             (the_world st1, students_marked_today st1)" by blast
      from Frame False s1 s2 show ?thesis by (simp add: marks_of_run_append)
    qed
  qed
qed

lemma process_camera_marks:
  assumes "length (known_face_ids g) = length (known_face_encodings g)"
    and "length (known_face_names g) = length (known_face_encodings g)"
  shows "process_camera lib g events st =
           Inr (marks_of_run gui_mark_attendance lib g (processed_faces events) st)"
proof (induction events arbitrary: st)
  case Nil
  show ?case by simp
next
  case (Cons ev events)
  show ?case
  proof (cases ev)
    case ReadFailed
    then show ?thesis by simp
  next
    case (Frame faces stopped)
    with Cons.IH show ?thesis
      by (simp add: gui_process_faces_marks[OF assms] marks_of_run_append)
  qed
qed

lemma web_camera_loop_marks:
  assumes "length (known_face_ids g) = length (known_face_encodings g)"
    and "length (known_face_names g) = length (known_face_encodings g)"
  shows "web_camera_loop lib g events st =
           Inr (marks_of_run (\<lambda>now sid name. web_mark_attendance now sid) lib g
                  (processed_faces events) st)"
proof (induction events arbitrary: st)
  case Nil
  show ?case by simp
next
  case (Cons ev events)
  show ?case
  proof (cases ev)
    case ReadFailed
    then show ?thesis by simp
  next
    case (Frame faces rerun)
    with Cons.IH show ?thesis
      by (simp add: web_process_faces_marks[OF assms] marks_of_run_append)
  qed
qed

lemma marked_today_sets:
  "load_marked_students_today today_str d =
     {sid. \<exists>r\<in>set (attendance d). a_student_id r = sid \<and> a_date r = today_str}"
  "gui_load_marked_students_today today_str d =
     {sid. \<exists>r\<in>set (attendance d). a_student_id r = sid \<and> a_date r = today_str}"
  "get_marked_students_today today_str d =
     {sid. \<exists>r\<in>set (attendance d). a_student_id r = sid \<and> a_date r = today_str}"
  by (auto simp: load_marked_students_today_def gui_load_marked_students_today_def
      get_marked_students_today_def)

lemma camera_loop_rows:
  assumes "length (known_face_ids g) = length (known_face_encodings g)"
    and "length (known_face_names g) = length (known_face_encodings g)"
  shows "\<exists>st' news. camera_loop lib g events st = Inr st' \<and>
           attendance (db (the_world st')) = attendance (db (the_world st)) @ news \<and>
           first_match_rows lib g (processed_faces events) (students_marked_today st) news \<and>
           students_marked_today st' =
             students_marked_today st \<union> recognised_ids lib g (processed_faces events)"
proof -
  from camera_loop_marks[OF assms, of lib events st]
  obtain st' where l: "camera_loop lib g events st = Inr st'"
    and m: "(the_world st', students_marked_today st') =
             marks_of_run mark_attendance lib g (processed_faces events)
               (the_world st, students_marked_today st)" by blast
  from marks_of_run_rows[of mark_attendance lib g "processed_faces events" "the_world st"
      "students_marked_today st", OF marking_adds_row(1)]
  obtain news where "attendance (db (fst (marks_of_run mark_attendance lib g
         (processed_faces events) (the_world st, students_marked_today st)))) =
       attendance (db (the_world st)) @ news"
    "first_match_rows lib g (processed_faces events) (students_marked_today st) news"
    "snd (marks_of_run mark_attendance lib g (processed_faces events)
         (the_world st, students_marked_today st)) =
       students_marked_today st \<union> recognised_ids lib g (processed_faces events)"
    by blast
  with l m[symmetric] show ?thesis by auto
qed

lemma process_camera_rows:
  assumes "length (known_face_ids g) = length (known_face_encodings g)"
    and "length (known_face_names g) = length (known_face_encodings g)"
  shows "\<exists>w' marked' news. process_camera lib g events (w, marked) = Inr (w', marked') \<and>
           attendance (db w') = attendance (db w) @ news \<and>
           first_match_rows lib g (processed_faces events) marked news \<and>
           marked' = marked \<union> recognised_ids lib g (processed_faces events)"
proof -
  obtain w' marked' where r: "marks_of_run gui_mark_attendance lib g (processed_faces events)
      (w, marked) = (w', marked')" by (cases "marks_of_run gui_mark_attendance lib g
      (processed_faces events) (w, marked)")
  from marks_of_run_rows[of gui_mark_attendance lib g "processed_faces events" w marked,
      OF marking_adds_row(2)] r
  obtain news where "attendance (db w') = attendance (db w) @ news"
    "first_match_rows lib g (processed_faces events) marked news"
    "marked' = marked \<union> recognised_ids lib g (processed_faces events)"
    by auto
  with process_camera_marks[OF assms, of lib events "(w, marked)"] r show ?thesis by auto
qed

lemma web_camera_loop_rows:
  assumes "length (known_face_ids g) = length (known_face_encodings g)"
    and "length (known_face_names g) = length (known_face_encodings g)"
  shows "\<exists>w' marked' news. web_camera_loop lib g events (w, marked) = Inr (w', marked') \<and>
           attendance (db w') = attendance (db w) @ news \<and>
           first_match_rows lib g (processed_faces events) marked news \<and>
           marked' = marked \<union> recognised_ids lib g (processed_faces events)"
proof -
  let ?mark = "\<lambda>now sid name. web_mark_attendance now sid"
  obtain w' marked' where r: "marks_of_run ?mark lib g (processed_faces events)
      (w, marked) = (w', marked')" by (cases "marks_of_run ?mark lib g
      (processed_faces events) (w, marked)")
  from marks_of_run_rows[of ?mark lib g "processed_faces events" w marked,
      OF marking_adds_row(3)] r
  obtain news where "attendance (db w') = attendance (db w) @ news"
    "first_match_rows lib g (processed_faces events) marked news"
    "marked' = marked \<union> recognised_ids lib g (processed_faces events)"
    by auto
  with web_camera_loop_marks[OF assms, of lib events "(w, marked)"] r show ?thesis by auto
qed

lemma run_attendance_rows:
  assumes "load_registered_faces lib w = Inr g" and "known_face_encodings g \<noteq> []"
  shows "\<exists>w' news. run_attendance lib today_str True events w = Inr w' \<and>
           attendance (db w') = attendance (db w) @ news \<and>
           first_match_rows lib g (processed_faces events)
             {sid. \<exists>r\<in>set (attendance (db w)). a_student_id r = sid \<and> a_date r = today_str}
             news"
proof -
  from loaded_gallery_lengths[of lib w g] assms(1)
  have wf: "length (known_face_ids g) = length (known_face_encodings g)"
    "length (known_face_names g) = length (known_face_encodings g)" by simp_all
  let ?st = "\<lparr>the_world = w,
              students_marked_today = load_marked_students_today today_str (db w),
              face_labels = []\<rparr>"
  from camera_loop_rows[OF wf, of lib events ?st]
  obtain st' news where "camera_loop lib g events ?st = Inr st'"
    "attendance (db (the_world st')) = attendance (db w) @ news"
    "first_match_rows lib g (processed_faces events)
       (load_marked_students_today today_str (db w)) news"
    by auto
  with assms show ?thesis
    by (auto simp: run_attendance_def Let_def marked_today_sets(1))
qed

lemma start_attendance_rows:
  assumes "gui_load_registered_faces lib w = Inr (True, g)"
  shows "\<exists>w' news. start_attendance lib today_str True events w = Inr w' \<and>
           attendance (db w') = attendance (db w) @ news \<and>
           first_match_rows lib g (processed_faces events)
             {sid. \<exists>r\<in>set (attendance (db w)). a_student_id r = sid \<and> a_date r = today_str}
             news"
proof -
  from loaded_gallery_lengths[of lib w g True] assms(1)
  have wf: "length (known_face_ids g) = length (known_face_encodings g)"
    "length (known_face_names g) = length (known_face_encodings g)" by simp_all
  from process_camera_rows[OF wf, of lib events w
      "gui_load_marked_students_today today_str (db w)"]
  obtain w' marked' news where
    "process_camera lib g events (w, gui_load_marked_students_today today_str (db w)) =
       Inr (w', marked')"
    "attendance (db w') = attendance (db w) @ news"
    "first_match_rows lib g (processed_faces events)
       (gui_load_marked_students_today today_str (db w)) news"
    by blast
  with assms show ?thesis
    by (auto simp: start_attendance_def Let_def marked_today_sets(2))
qed

lemma mark_attendance_page_rows:
  assumes "load_registered_students cached w \<noteq> []"
    and "load_face_encodings lib w (load_registered_students cached w) = Inr g"
  shows "\<exists>w' news. mark_attendance_page lib cached today_str True True events w = Inr w' \<and>
           attendance (db w') = attendance (db w) @ news \<and>
           first_match_rows lib g (processed_faces events)
             {sid. \<exists>r\<in>set (attendance (db w)). a_student_id r = sid \<and> a_date r = today_str}
             news"
proof -
  from loaded_gallery_lengths[of lib w g _ "load_registered_students cached w"] assms(2)
  have wf: "length (known_face_ids g) = length (known_face_encodings g)"
    "length (known_face_names g) = length (known_face_encodings g)" by simp_all
  from web_camera_loop_rows[OF wf, of lib events w
      "get_marked_students_today today_str (db w)"]
  obtain w' marked' news where
    "web_camera_loop lib g events (w, get_marked_students_today today_str (db w)) =
       Inr (w', marked')"
    "attendance (db w') = attendance (db w) @ news"
    "first_match_rows lib g (processed_faces events)
       (get_marked_students_today today_str (db w)) news"
    by blast
  with assms show ?thesis
    by (auto simp: mark_attendance_page_def Let_def marked_today_sets(3))
qed

lemma example_matches:
  "match_face example_lib loaded_gallery 0 = Inr (Some (''S1'', ''Alice''))"
  "match_face example_lib loaded_gallery 1 = Inr (Some (''S2'', ''Bob''))"
  "match_face example_lib loaded_gallery 0.1 = Inr (Some (''S1'', ''Alice''))"
  by (simp_all add: match_face_def loaded_gallery_def example_lib_def face_distance_def
      argmin_def py_index_def FACE_RECOGNITION_TOLERANCE_def)

lemma loaded_gallery_nonempty: "known_face_encodings loaded_gallery \<noteq> []"
  by (simp add: loaded_gallery_def)

lemma example_run:
  "\<exists>st'. camera_loop example_lib loaded_gallery example_events example_start = Inr st' \<and>
      attendance (db (the_world st')) = example_attendance @
        [\<lparr>a_id = 3, a_student_id = ''S1'', a_date = ''2024-01-02'', a_time = ''09:00:01''\<rparr>] \<and>
      students_marked_today st' = {''S1'', ''S2''} \<and>
      face_labels st' = [''Bob'', ''Alice'']"
  by (simp add: example_events_def example_start_def process_face_def example_matches
      loaded_gallery_nonempty mark_attendance_def insert_attendance_def append_to_csv_def Let_def
      example_world_def example_attendance_def insert_commute)

lemma example_loaded:
  "load_registered_faces example_lib example_world = Inr loaded_gallery"
  by (simp add: load_registered_faces_def example_world_def example_students_def
      path_exists_def load_image_file_def example_lib_def empty_gallery_def loaded_gallery_def)

lemma example_marked_today:
  "load_marked_students_today ''2024-01-02'' (db example_world) = {''S2''}"
  by (auto simp: load_marked_students_today_def example_world_def example_attendance_def)

lemma example_full_run:
  "\<exists>w'. run_attendance example_lib ''2024-01-02'' True example_events example_world = Inr w' \<and>
      attendance (db w') = example_attendance @
        [\<lparr>a_id = 3, a_student_id = ''S1'', a_date = ''2024-01-02'', a_time = ''09:00:01''\<rparr>]"
proof -
  from example_run obtain st' where
    "camera_loop example_lib loaded_gallery example_events example_start = Inr st'"
    "attendance (db (the_world st')) = example_attendance @
        [\<lparr>a_id = 3, a_student_id = ''S1'', a_date = ''2024-01-02'', a_time = ''09:00:01''\<rparr>]"
    by blast
  then show ?thesis
    by (simp add: run_attendance_def example_loaded loaded_gallery_nonempty
        example_marked_today Let_def example_start_def[symmetric])
qed

text \<open>
  Claim C2. In each of the three camera loops, on a gallery with lists of one length and
  from any marked set, the loop returns, and the attendance rows it adds are exactly one
  row for each student who is recognised in a processed face and was not in the set: no
  student twice, none who was in the set, each row stamped by the first face in which
  the student is recognised; the set afterwards is the set before together with every
  student recognised. For a whole run of \<^verbatim>\<open>run_attendance\<close>, of the GUI's
  \<^verbatim>\<open>start_attendance\<close> and of the web page, with the gallery loaded and the camera
  open, the set the loop starts from is the set of students with an attendance row dated
  today at startup.
\<close>

theorem first_match_marks_once:
  "(length (known_face_ids g) = length (known_face_encodings g) \<and>
    length (known_face_names g) = length (known_face_encodings g) \<longrightarrow>
      (\<exists>st' news. camera_loop lib g events st = Inr st' \<and>
         attendance (db (the_world st')) = attendance (db (the_world st)) @ news \<and>
         first_match_rows lib g (processed_faces events) (students_marked_today st) news \<and>
         students_marked_today st' =
           students_marked_today st \<union> recognised_ids lib g (processed_faces events)) \<and>
      (\<exists>w' marked' news. process_camera lib g events (w, marked) = Inr (w', marked') \<and>
         attendance (db w') = attendance (db w) @ news \<and>
         first_match_rows lib g (processed_faces events) marked news \<and>
         marked' = marked \<union> recognised_ids lib g (processed_faces events)) \<and>
      (\<exists>w' marked' news. web_camera_loop lib g events (w, marked) = Inr (w', marked') \<and>
         attendance (db w') = attendance (db w) @ news \<and>
         first_match_rows lib g (processed_faces events) marked news \<and>
         marked' = marked \<union> recognised_ids lib g (processed_faces events))) \<and>
   (load_registered_faces lib w = Inr g \<and> known_face_encodings g \<noteq> [] \<longrightarrow>
      (\<exists>w' news. run_attendance lib today_str True events w = Inr w' \<and>
         attendance (db w') = attendance (db w) @ news \<and>
         first_match_rows lib g (processed_faces events)
           {sid. \<exists>r\<in>set (attendance (db w)). a_student_id r = sid \<and> a_date r = today_str}
           news)) \<and>
   (gui_load_registered_faces lib w = Inr (True, g) \<longrightarrow>
      (\<exists>w' news. start_attendance lib today_str True events w = Inr w' \<and>
         attendance (db w') = attendance (db w) @ news \<and>
         first_match_rows lib g (processed_faces events)
           {sid. \<exists>r\<in>set (attendance (db w)). a_student_id r = sid \<and> a_date r = today_str}
           news)) \<and>
   (load_registered_students cached w \<noteq> [] \<and>
    load_face_encodings lib w (load_registered_students cached w) = Inr g \<longrightarrow>
      (\<exists>w' news. mark_attendance_page lib cached today_str True True events w = Inr w' \<and>
         attendance (db w') = attendance (db w) @ news \<and>
         first_match_rows lib g (processed_faces events)
           {sid. \<exists>r\<in>set (attendance (db w)). a_student_id r = sid \<and> a_date r = today_str}
           news))"
  using camera_loop_rows[of g lib events st] process_camera_rows[of g lib events w marked]
    web_camera_loop_rows[of g lib events w marked]
    run_attendance_rows[of lib w g today_str events]
    start_attendance_rows[of lib w g today_str events]
    mark_attendance_page_rows[of cached w lib g today_str events]
  by blast

theorem first_match_marks_once_witness:
  "(\<exists>w' news. run_attendance example_lib ''2024-01-02'' True example_events example_world
        = Inr w' \<and>
      attendance (db w') = attendance (db example_world) @ news \<and>
      first_match_rows example_lib loaded_gallery (processed_faces example_events)
        {sid. \<exists>r\<in>set (attendance (db example_world)).
                a_student_id r = sid \<and> a_date r = ''2024-01-02''} news) \<and>
   (\<exists>w'. run_attendance example_lib ''2024-01-02'' True example_events example_world = Inr w' \<and>
      attendance (db w') = example_attendance @
        [\<lparr>a_id = 3, a_student_id = ''S1'', a_date = ''2024-01-02'', a_time = ''09:00:01''\<rparr>])"
  using first_match_marks_once[where lib = example_lib and w = example_world
      and g = loaded_gallery and today_str = "''2024-01-02''" and events = example_events]
    example_loaded loaded_gallery_nonempty example_full_run
  by blast

section \<open>The three front-ends on one database\<close>
























section \<open>Where exceptions are caught\<close>

text \<open>
  An exception that leaves an operation is the outcome \<open>Raised\<close> of a registration and
  the result \<open>Inl\<close> of a loader or a run. The command line's registration turns a
  photo that cannot be loaded down, and raises only what \<^verbatim>\<open>validate_and_copy_image\<close>
  raises other than \<^verbatim>\<open>FileNotFoundError\<close> and \<^verbatim>\<open>RuntimeError\<close>; the GUI's registration
  never raises; the web page's registration raises exactly what its preview raises; the
  loaders and the runs built on them raise when a photo that exists cannot be loaded.
\<close>

lemma register_student_catches_load:
  assumes "load_image_file lib w
             (strip_chars [CHR 0x27] (strip_chars [CHR 0x22] (str_strip lib typed_path))) = Inl e"
  shows "register_student lib typed_id typed_name typed_path w = (Rejected, w)"
  using assms
  by (auto simp: register_student_def validate_and_copy_image_def Let_def)

lemma gui_register_student_never_raises:
  "fst (gui_register_student lib typed_id typed_name typed_path w) \<noteq> Raised e"
  by (auto simp: gui_register_student_def Let_def split: sum.splits)

lemma register_student_raises:
  assumes "fst (register_student lib typed_id typed_name typed_path w) = Raised e"
  shows "e \<noteq> FileNotFoundError \<and> e \<noteq> RuntimeError \<and>
         validate_and_copy_image lib
           (strip_chars [CHR 0x27] (strip_chars [CHR 0x22] (str_strip lib typed_path)))
           (str_strip lib typed_id) (str_strip lib typed_name) w = Inl e"
  using assms
  by (auto simp: register_student_def Let_def split: sum.splits if_splits)

lemma web_register_student_raises:
  "fst (web_register_student lib student_id student_name uploaded_file w) = Raised e \<longleftrightarrow>
     (\<exists>uploaded_name uploaded_bytes. uploaded_file = Some (uploaded_name, uploaded_bytes) \<and>
        preview_error lib uploaded_bytes = Some e)"
  by (auto simp: web_register_student_def Let_def split: option.splits sum.splits)

lemma loaders_let_load_error_pass:
  assumes "row \<in> set (students (db w))" and "path_exists w (s_image_path row)"
    and "load_image_file lib w (s_image_path row) = Inl e"
  shows "\<exists>e'. load_registered_faces lib w = Inl e' \<and>
              gui_load_registered_faces lib w = Inl e' \<and>
              run_attendance lib today_str camera_opened events w = Inl e' \<and>
              start_attendance lib today_str camera_opened events w = Inl e'"
proof -
  from assms have ne: "students (db w) \<noteq> []" by auto
  from assms have "\<exists>row\<in>set (students (db w)). path_exists w (s_image_path row) \<and>
             (\<exists>e. load_image_file lib w (s_image_path row) = Inl e)" by blast
  from load_faces_loop_raises[OF this, of empty_gallery]
  obtain e' where "load_faces_loop lib w (students (db w)) empty_gallery = Inl e'" by blast
  with ne have "load_registered_faces lib w = Inl e' \<and>
              gui_load_registered_faces lib w = Inl e' \<and>
              run_attendance lib today_str camera_opened events w = Inl e' \<and>
              start_attendance lib today_str camera_opened events w = Inl e'"
    by (simp add: load_registered_faces_def gui_load_registered_faces_def
        run_attendance_def start_attendance_def Let_def)
  then show ?thesis by blast
qed

end
